theory Spec2Isabelle
  imports Main "HOL-Library.Multiset"
begin

section \<open>Data model (bsky/models.py)\<close>

text \<open>
  A \<open>datetime\<close> is modelled by the instant it denotes (an integer count of
  microseconds); nothing below depends on the unit.
\<close>

type_synonym datetime = int

record post_metrics =
  like_count :: int
  repost_count :: int
  reply_count :: int
  quote_count :: int

record post =
  post_uri :: string
  post_cid :: "string option"
  post_author_did :: string
  post_author_handle :: string
  post_created_at :: datetime
  post_text :: string
  post_metrics :: post_metrics

datatype edge_type = QUOTE | REPLY

record edge =
  src_uri :: string
  dst_uri :: string
  edge_type :: edge_type
  edge_created_at :: "datetime option"

text \<open>
  \<open>Edge.__eq__\<close> and \<open>Edge.__hash__\<close> look at the triple (source, destination, type)
  only; the same triple is the key of \<open>deduplicate_edges\<close>.
\<close>

definition edge_key :: "edge \<Rightarrow> string \<times> string \<times> edge_type" where
  "edge_key e = (src_uri e, dst_uri e, edge_type e)"

section \<open>Raw payloads\<close>

text \<open>
  The upstream API answers with JSON objects. The model keeps the keys the code reads,
  each with the type the API gives it; \<open>None\<close> is an absent key. Payloads whose values
  have other JSON types are outside the model.
\<close>

record raw_author =
  raw_did :: "string option"
  raw_handle :: "string option"

record raw_record =
  raw_text :: "string option"
  raw_createdAt :: "string option"

record raw_post =
  raw_uri :: "string option"
  raw_cid :: "string option"
  raw_author :: "raw_author option"
  raw_record :: "raw_record option"
  raw_indexedAt :: "string option"
  raw_likeCount :: "int option"
  raw_repostCount :: "int option"
  raw_replyCount :: "int option"
  raw_quoteCount :: "int option"

datatype thread_node =
  ThreadNode (node_type: string) (node_post: "raw_post option")
    (node_parent: "thread_node option") (node_replies: "thread_node list")

record api_response =
  resp_posts :: "raw_post list"
  resp_cursor :: "string option"
  resp_thread :: "thread_node option"

section \<open>Python helpers\<close>

text \<open>Truthiness of an optional string: \<open>None\<close> and the empty string are falsy.\<close>

fun truthy :: "string option \<Rightarrow> bool" where
  "truthy None = False"
| "truthy (Some s) = (s \<noteq> [])"

text \<open>\<open>a or b\<close> on optional strings.\<close>

definition py_or :: "string option \<Rightarrow> string option \<Rightarrow> string option" where
  "py_or a b = (if truthy a then a else b)"

text \<open>\<open>d.get(k, default)\<close> for an absent key.\<close>

definition get_default :: "'a option \<Rightarrow> 'a \<Rightarrow> 'a" where
  "get_default v d = (case v of None \<Rightarrow> d | Some x \<Rightarrow> x)"

text \<open>
  \<open>xs[:n]\<close> for a Python integer \<open>n\<close>: a negative \<open>n\<close> counts from the end.
\<close>

definition py_take :: "int \<Rightarrow> 'a list \<Rightarrow> 'a list" where
  "py_take n xs =
     (if 0 \<le> n then take (nat n) xs else take (nat (int (length xs) + n)) xs)"

text \<open>
  A \<open>dict\<close> keeps its keys in insertion order; \<open>d[k] = v\<close> overwrites the value of a
  key already present, in place, and appends a new key at the end.
\<close>

type_synonym ('k, 'v) dict = "('k \<times> 'v) list"

fun dict_set :: "'k \<Rightarrow> 'v \<Rightarrow> ('k, 'v) dict \<Rightarrow> ('k, 'v) dict" where
  "dict_set k v [] = [(k, v)]"
| "dict_set k v ((k', v') # d) =
     (if k' = k then (k, v) # d else (k', v') # dict_set k v d)"

definition dict_values :: "('k, 'v) dict \<Rightarrow> 'v list" where
  "dict_values d = map snd d"

definition dict_get :: "('k, 'v) dict \<Rightarrow> 'k \<Rightarrow> 'v option" where
  "dict_get d k = map_of d k"

section \<open>Normalizer (bsky/normalize.py)\<close>

text \<open>
  \<open>datetime.fromisoformat\<close> belongs to the Python library: it is the parameter \<open>fromiso\<close>,
  \<open>None\<close> where the library raises \<open>ValueError\<close>. The clock read by \<open>datetime.now()\<close> is
  the parameter \<open>now\<close>.
\<close>

definition endswith_Z :: "string \<Rightarrow> bool" where
  "endswith_Z s = (s \<noteq> [] \<and> last s = CHR ''Z'')"

definition parse_timestamp :: "(string \<Rightarrow> datetime option) \<Rightarrow> string option \<Rightarrow> datetime option" where
  "parse_timestamp fromiso timestamp_str =
     (if \<not> truthy timestamp_str then None
      else (case timestamp_str of
              None \<Rightarrow> None
            | Some s \<Rightarrow> fromiso (if endswith_Z s then butlast s @ ''+00:00'' else s)))"

definition normalize_post :: "(string \<Rightarrow> datetime option) \<Rightarrow> datetime \<Rightarrow> raw_post \<Rightarrow> post option" where
  "normalize_post fromiso now post_data =
     (let uri = raw_uri post_data in
      if \<not> truthy uri then None
      else
        let cid = raw_cid post_data;
            author = get_default (raw_author post_data) \<lparr>raw_did = None, raw_handle = None\<rparr>;
            author_did = raw_did author;
            author_handle = raw_handle author
        in if \<not> truthy author_did \<or> \<not> truthy author_handle then None
           else
             let record = get_default (raw_record post_data) \<lparr>raw_text = None, raw_createdAt = None\<rparr>;
                 text = get_default (raw_text record) [];
                 created_at_str = py_or (raw_createdAt record) (raw_indexedAt post_data);
                 created_at = (case parse_timestamp fromiso created_at_str of
                                 None \<Rightarrow> now
                               | Some t \<Rightarrow> t);
                 metrics = \<lparr>like_count = get_default (raw_likeCount post_data) 0,
                            repost_count = get_default (raw_repostCount post_data) 0,
                            reply_count = get_default (raw_replyCount post_data) 0,
                            quote_count = get_default (raw_quoteCount post_data) 0\<rparr>
             in Some \<lparr>post_uri = the uri, post_cid = cid,
                       post_author_did = the author_did,
                       post_author_handle = the author_handle,
                       post_created_at = created_at, post_text = text,
                       post_metrics = metrics\<rparr>)"

subsection \<open>Deduplication\<close>

fun dedup_posts_loop :: "post list \<Rightarrow> string set \<Rightarrow> post list \<Rightarrow> post list" where
  "dedup_posts_loop [] seen deduped = deduped"
| "dedup_posts_loop (p # ps) seen deduped =
     (if post_uri p \<notin> seen
      then dedup_posts_loop ps (insert (post_uri p) seen) (deduped @ [p])
      else dedup_posts_loop ps seen deduped)"

definition deduplicate_posts :: "post list \<Rightarrow> post list" where
  "deduplicate_posts posts = dedup_posts_loop posts {} []"

fun dedup_edges_loop ::
  "edge list \<Rightarrow> (string \<times> string \<times> edge_type) set \<Rightarrow> edge list \<Rightarrow> edge list" where
  "dedup_edges_loop [] seen deduped = deduped"
| "dedup_edges_loop (e # es) seen deduped =
     (let key = (src_uri e, dst_uri e, edge_type e) in
      if key \<notin> seen
      then dedup_edges_loop es (insert key seen) (deduped @ [e])
      else dedup_edges_loop es seen deduped)"

definition deduplicate_edges :: "edge list \<Rightarrow> edge list" where
  "deduplicate_edges edges = dedup_edges_loop edges {} []"


subsection \<open>Thread traversal\<close>

text \<open>
  \<open>normalize_thread_node\<close> mutates the \<open>posts\<close> dict and the \<open>edges\<close> list it is given; the
  model returns both next to the function's own result. The \<open>for\<close> loop over the reply
  nodes is \<open>normalize_replies\<close>. \<open>edge not in edges\<close> compares with \<open>Edge.__eq__\<close>, that is,
  by \<open>edge_key\<close>.
\<close>

function normalize_thread_node ::
    "(string \<Rightarrow> datetime option) \<Rightarrow> datetime \<Rightarrow> thread_node \<Rightarrow> (string, post) dict \<Rightarrow> edge list
      \<Rightarrow> string option \<Rightarrow> int \<Rightarrow> int \<Rightarrow> string option \<times> (string, post) dict \<times> edge list"
  and normalize_replies ::
    "(string \<Rightarrow> datetime option) \<Rightarrow> datetime \<Rightarrow> thread_node list \<Rightarrow> (string, post) dict \<Rightarrow> edge list
      \<Rightarrow> string option \<Rightarrow> int \<Rightarrow> int \<Rightarrow> (string, post) dict \<times> edge list"
where
  "normalize_thread_node fromiso now node posts edges parent_uri max_depth current_depth =
     (if current_depth \<ge> max_depth then (None, posts, edges)
      else if node_type node = ''app.bsky.feed.defs#threadViewPost'' then
        (case node_post node of
           None \<Rightarrow> (None, posts, edges)
         | Some post_data \<Rightarrow>
             (case normalize_post fromiso now post_data of
                None \<Rightarrow> (None, posts, edges)
              | Some post \<Rightarrow>
                  (let posts1 = dict_set (post_uri post) post posts;
                       edges1 =
                         (if truthy parent_uri then
                            (let edge = \<lparr>src_uri = post_uri post, dst_uri = the parent_uri,
                                         edge_type = REPLY,
                                         edge_created_at = Some (post_created_at post)\<rparr>
                             in if edge_key edge \<notin> edge_key ` set edges
                                then edges @ [edge] else edges)
                          else edges);
                       (posts2, edges2) =
                         (case node_parent node of
                            None \<Rightarrow> (posts1, edges1)
                          | Some parent_node \<Rightarrow>
                              snd (normalize_thread_node fromiso now parent_node posts1 edges1
                                     (Some (post_uri post)) max_depth (current_depth + 1)));
                       (posts3, edges3) =
                         normalize_replies fromiso now (node_replies node) posts2 edges2
                           (Some (post_uri post)) max_depth (current_depth + 1)
                   in (Some (post_uri post), posts3, edges3))))
      else if node_type node = ''app.bsky.feed.defs#blockedPost'' then (None, posts, edges)
      else if node_type node = ''app.bsky.feed.defs#notFoundPost'' then (None, posts, edges)
      else (None, posts, edges))"
| "normalize_replies fromiso now [] posts edges parent_uri max_depth current_depth =
     (posts, edges)"
| "normalize_replies fromiso now (reply_node # replies) posts edges parent_uri max_depth
       current_depth =
     (let (posts', edges') =
            snd (normalize_thread_node fromiso now reply_node posts edges parent_uri max_depth
                   current_depth)
      in normalize_replies fromiso now replies posts' edges' parent_uri max_depth current_depth)"
  by pat_completeness auto
termination
  by (relation "measures
        [\<lambda>x. case x of
                Inl (_, _, _, _, _, _, md, cd) \<Rightarrow> nat (md - cd)
              | Inr (_, _, _, _, _, _, md, cd) \<Rightarrow> nat (md - cd),
         \<lambda>x. case x of
                Inl _ \<Rightarrow> 0
              | Inr (_, _, rs, _) \<Rightarrow> Suc (length rs)]")
    auto

definition extract_thread_posts_and_edges ::
  "(string \<Rightarrow> datetime option) \<Rightarrow> datetime \<Rightarrow> api_response \<Rightarrow> int
    \<Rightarrow> (string, post) dict \<times> edge list" where
  "extract_thread_posts_and_edges fromiso now thread_response max_depth =
     (case resp_thread thread_response of
        None \<Rightarrow> ([], [])
      | Some thread \<Rightarrow>
          snd (normalize_thread_node fromiso now thread [] [] None max_depth 0))"

subsection \<open>Quote extraction\<close>

fun extract_quote_loop ::
  "(string \<Rightarrow> datetime option) \<Rightarrow> datetime \<Rightarrow> raw_post list \<Rightarrow> string \<Rightarrow> post list \<Rightarrow> edge list
    \<Rightarrow> post list \<times> edge list" where
  "extract_quote_loop fromiso now [] target_uri posts edges = (posts, edges)"
| "extract_quote_loop fromiso now (post_data # rest) target_uri posts edges =
     (case normalize_post fromiso now post_data of
        None \<Rightarrow> extract_quote_loop fromiso now rest target_uri posts edges
      | Some post \<Rightarrow>
          extract_quote_loop fromiso now rest target_uri (posts @ [post])
            (edges @ [\<lparr>src_uri = post_uri post, dst_uri = target_uri, edge_type = QUOTE,
                        edge_created_at = Some (post_created_at post)\<rparr>]))"

definition extract_quote_edges ::
  "(string \<Rightarrow> datetime option) \<Rightarrow> datetime \<Rightarrow> raw_post list \<Rightarrow> string \<Rightarrow> post list \<times> edge list" where
  "extract_quote_edges fromiso now quote_posts target_uri =
     extract_quote_loop fromiso now quote_posts target_uri [] []"

section \<open>Budgeted retrying client (bsky/client.py)\<close>

record ingest_config =
  redis_enabled :: bool
  max_retries :: int
  max_requests_per_run :: int

record request_stats =
  total_requests :: int
  cache_hits :: int
  cache_misses :: int
  failed_requests :: int

text \<open>
  The client: its configuration, its counters, and whether it holds a cache connection
  (\<open>self._redis\<close> is not \<open>None\<close>).
\<close>

record client =
  config :: ingest_config
  stats :: request_stats
  request_count :: int
  redis :: bool

datatype param = PStr string | PInt int

type_synonym params = "(string \<times> param) list"

text \<open>
  What one HTTP request can come back with. The \<open>Retry-After\<close> header is absent (or
  empty), a delay that \<open>float\<close> and \<open>time.sleep\<close> accept, or a value on which one of them
  raises \<open>ValueError\<close>. The body is \<open>None\<close> when \<open>response.json()\<close> raises.
\<close>

datatype retry_after = NoRetryAfter | RetryAfterDelay | RetryAfterInvalid

record http_response =
  status_code :: int
  retry_after_header :: retry_after
  json_body :: "api_response option"

datatype http_outcome = HttpResponse http_response | TransportError

text \<open>
  What a cache lookup finds under a key: nothing (or an empty value), a value that decodes
  to a payload, a non-empty value that \<open>json.loads\<close> rejects or decodes to \<open>null\<close>, or a
  failure of the cache backend.
\<close>

datatype cache_read = CacheEmpty | CacheJson api_response | CacheUndecodable | CacheRaises

text \<open>
  Everything outside the client. \<open>net n endpoint params\<close> is the outcome of the request
  issued when \<open>n\<close> requests have been issued before; \<open>net_calls\<close> and \<open>cache_lookups\<close> count
  the requests and the cache reads issued so far. \<open>param_hash\<close> is
  \<open>hashlib.md5(json.dumps(params, sort_keys=True))\<close>. Sleeping and the backoff delay act on
  time only and are left out, as is the expiry of cache entries.
\<close>

record world =
  net :: "nat \<Rightarrow> string \<Rightarrow> params \<Rightarrow> http_outcome"
  net_calls :: nat
  redis_ping_ok :: bool
  store :: "string \<Rightarrow> cache_read"
  cache_lookups :: nat
  cache_write_ok :: bool
  param_hash :: "params \<Rightarrow> string"
  fromisoformat :: "string \<Rightarrow> datetime option"
  clock :: datetime

datatype client_error = BudgetExhausted | MaxRetriesReached | FetchFailed | ValueError

definition new_client :: "ingest_config \<Rightarrow> world \<Rightarrow> client" where
  "new_client cfg w =
     \<lparr>config = cfg,
      stats = \<lparr>total_requests = 0, cache_hits = 0, cache_misses = 0, failed_requests = 0\<rparr>,
      request_count = 0,
      redis = (redis_enabled cfg \<and> redis_ping_ok w)\<rparr>"

definition make_cache_key :: "world \<Rightarrow> string \<Rightarrow> params \<Rightarrow> string" where
  "make_cache_key w endpoint ps = ''bsky:'' @ endpoint @ '':'' @ param_hash w ps"

definition get_from_cache ::
  "client \<Rightarrow> world \<Rightarrow> string \<Rightarrow> api_response option \<times> client \<times> world" where
  "get_from_cache c w cache_key =
     (if \<not> redis c then (None, c, w)
      else
        (let w' = w\<lparr>cache_lookups := cache_lookups w + 1\<rparr>;
             hit = c\<lparr>stats := (stats c)\<lparr>cache_hits := cache_hits (stats c) + 1\<rparr>\<rparr>
         in case store w cache_key of
              CacheRaises \<Rightarrow> (None, c, w')
            | CacheEmpty \<Rightarrow> (None, c, w')
            | CacheUndecodable \<Rightarrow> (None, hit, w')
            | CacheJson cached \<Rightarrow> (Some cached, hit, w')))"

definition set_cache :: "client \<Rightarrow> world \<Rightarrow> string \<Rightarrow> api_response \<Rightarrow> world" where
  "set_cache c w cache_key data =
     (if \<not> redis c then w
      else if cache_write_ok w then w\<lparr>store := (store w)(cache_key := CacheJson data)\<rparr>
      else w)"

definition check_budget :: "client \<Rightarrow> bool" where
  "check_budget c = (request_count c \<ge> max_requests_per_run (config c))"

text \<open>\<open>response.raise_for_status()\<close> of the HTTP library raises outside the 2xx range.\<close>

definition raise_for_status :: "int \<Rightarrow> bool" where
  "raise_for_status code = (\<not> (200 \<le> code \<and> code < 300))"

text \<open>
  The retry loop of \<open>get\<close>. Each pass counts the request before it is sent. The \<open>except\<close>
  branch for \<open>httpx.HTTPError\<close> is \<open>on_http_error\<close>: shared by a transport error and by a
  status that \<open>raise_for_status\<close> rejects.
\<close>

function get_retry_loop ::
  "string \<Rightarrow> params \<Rightarrow> string \<Rightarrow> int \<Rightarrow> client \<Rightarrow> world
    \<Rightarrow> (client_error + api_response) \<times> client \<times> world" where
  "get_retry_loop endpoint ps cache_key attempt c w =
     (if attempt < max_retries (config c) then
        (let c1 = c\<lparr>request_count := request_count c + 1,
                    stats := (stats c)\<lparr>total_requests := total_requests (stats c) + 1\<rparr>\<rparr>;
             outcome = net w (net_calls w) endpoint ps;
             w1 = w\<lparr>net_calls := net_calls w + 1\<rparr>;
             on_http_error =
               (let c2 = c1\<lparr>stats := (stats c1)\<lparr>failed_requests := failed_requests (stats c1) + 1\<rparr>\<rparr>
                in if attempt \<ge> max_retries (config c) - 1 then (Inl MaxRetriesReached, c2, w1)
                   else get_retry_loop endpoint ps cache_key (attempt + 1) c2 w1)
         in case outcome of
              TransportError \<Rightarrow> on_http_error
            | HttpResponse response \<Rightarrow>
                if status_code response = 429 then
                  (if retry_after_header response = RetryAfterInvalid then (Inl ValueError, c1, w1)
                   else get_retry_loop endpoint ps cache_key (attempt + 1) c1 w1)
                else if status_code response \<ge> 500 then
                  get_retry_loop endpoint ps cache_key (attempt + 1) c1 w1
                else if raise_for_status (status_code response) then on_http_error
                else
                  (case json_body response of
                     None \<Rightarrow> (Inl ValueError, c1, w1)
                   | Some data \<Rightarrow> (Inr data, c1, set_cache c1 w1 cache_key data)))
      else (Inl FetchFailed, c, w))"
  by pat_completeness auto
termination
  by (relation "measure (\<lambda>(endpoint, ps, cache_key, attempt, c, w).
                   nat (max_retries (config c) - attempt))")
    auto

definition get ::
  "client \<Rightarrow> world \<Rightarrow> string \<Rightarrow> params \<Rightarrow> (client_error + api_response) \<times> client \<times> world" where
  "get c w endpoint ps =
     (if check_budget c then (Inl BudgetExhausted, c, w)
      else
        (let cache_key = make_cache_key w endpoint ps in
         case get_from_cache c w cache_key of
           (Some cached, c1, w1) \<Rightarrow> (Inr cached, c1, w1)
         | (None, c1, w1) \<Rightarrow>
             get_retry_loop endpoint ps cache_key 0
               (c1\<lparr>stats := (stats c1)\<lparr>cache_misses := cache_misses (stats c1) + 1\<rparr>\<rparr>) w1))"

definition get_remaining_budget :: "client \<Rightarrow> int" where
  "get_remaining_budget c = max 0 (max_requests_per_run (config c) - request_count c)"

section \<open>API operations (bsky/api.py)\<close>

definition get_post_thread ::
  "client \<Rightarrow> world \<Rightarrow> string \<Rightarrow> int \<Rightarrow> int \<Rightarrow> (client_error + api_response) \<times> client \<times> world" where
  "get_post_thread c w uri depth parent_height =
     get c w ''app.bsky.feed.getPostThread''
       [(''uri'', PStr uri), (''depth'', PInt depth), (''parentHeight'', PInt parent_height)]"

definition get_quotes ::
  "client \<Rightarrow> world \<Rightarrow> string \<Rightarrow> int \<Rightarrow> string option
    \<Rightarrow> (client_error + api_response) \<times> client \<times> world" where
  "get_quotes c w uri limit cursor =
     get c w ''app.bsky.feed.getQuotes''
       ([(''uri'', PStr uri), (''limit'', PInt (min limit 100))]
        @ (if truthy cursor then [(''cursor'', PStr (the cursor))] else []))"

section \<open>Ingestion orchestrator, seed mode (bsky/ingest.py)\<close>

record seed_mode_inputs =
  in_seed_uri :: string
  in_max_depth :: int
  in_max_quote_pages :: int
  in_max_nodes :: int

record ingest_result =
  res_posts :: "post list"
  res_edges :: "edge list"
  res_total_requests :: int
  res_cache_hits :: int
  res_cache_misses :: int

text \<open>\<open>d.update(other)\<close>: every item of \<open>other\<close> is assigned into \<open>d\<close>, in order.\<close>

definition dict_update :: "('k, 'v) dict \<Rightarrow> ('k, 'v) dict \<Rightarrow> ('k, 'v) dict" where
  "dict_update d other = fold (\<lambda>(k, v) acc. dict_set k v acc) other d"

text \<open>Step 1: the thread of the seed. A failed fetch leaves both accumulators empty.\<close>

definition fetch_thread ::
  "seed_mode_inputs \<Rightarrow> client \<Rightarrow> world \<Rightarrow> ((string, post) dict \<times> edge list) \<times> client \<times> world" where
  "fetch_thread inputs c w =
     (case get_post_thread c w (in_seed_uri inputs) (in_max_depth inputs) 3 of
        (Inl e, c', w') \<Rightarrow> (([], []), c', w')
      | (Inr thread_response, c', w') \<Rightarrow>
          (let (thread_posts, thread_edges) =
                 extract_thread_posts_and_edges (fromisoformat w') (clock w') thread_response
                   (in_max_depth inputs)
           in ((dict_update [] thread_posts, [] @ thread_edges), c', w')))"

text \<open>The \<open>for post in quote_posts\<close> loop, with its \<open>break\<close> at the node cap.\<close>

fun insert_quote_posts :: "post list \<Rightarrow> (string, post) dict \<Rightarrow> int \<Rightarrow> (string, post) dict" where
  "insert_quote_posts [] all_posts cap = all_posts"
| "insert_quote_posts (post # rest) all_posts cap =
     (if int (length all_posts) \<ge> cap then all_posts
      else insert_quote_posts rest (dict_set (post_uri post) post all_posts) cap)"

text \<open>What the loop body does with one fetched quote page.\<close>

definition absorb_quote_page ::
  "seed_mode_inputs \<Rightarrow> world \<Rightarrow> api_response \<Rightarrow> (string, post) dict \<Rightarrow> edge list
    \<Rightarrow> (string, post) dict \<times> edge list" where
  "absorb_quote_page inputs w quote_response all_posts all_edges =
     (let raw_quote_posts = resp_posts quote_response;
          (quote_posts, quote_edges) =
            extract_quote_edges (fromisoformat w) (clock w) raw_quote_posts (in_seed_uri inputs)
      in (insert_quote_posts quote_posts all_posts (in_max_nodes inputs), all_edges @ quote_edges))"

function quote_loop ::
  "seed_mode_inputs \<Rightarrow> string option \<Rightarrow> int \<Rightarrow> (string, post) dict \<Rightarrow> edge list \<Rightarrow> client \<Rightarrow> world
    \<Rightarrow> ((string, post) dict \<times> edge list) \<times> client \<times> world" where
  "quote_loop inputs cursor quote_pages_fetched all_posts all_edges c w =
     (if quote_pages_fetched < in_max_quote_pages inputs then
        (case get_quotes c w (in_seed_uri inputs) 50 cursor of
           (Inl e, c', w') \<Rightarrow> ((all_posts, all_edges), c', w')
         | (Inr quote_response, c', w') \<Rightarrow>
             (let (all_posts', all_edges') =
                    absorb_quote_page inputs w' quote_response all_posts all_edges;
                  cursor' = resp_cursor quote_response
              in if \<not> truthy cursor' then ((all_posts', all_edges'), c', w')
                 else if get_remaining_budget c' < 10 then ((all_posts', all_edges'), c', w')
                 else if int (length all_posts') \<ge> in_max_nodes inputs
                   then ((all_posts', all_edges'), c', w')
                 else quote_loop inputs cursor' (quote_pages_fetched + 1) all_posts' all_edges'
                        c' w'))
      else ((all_posts, all_edges), c, w))"
  by pat_completeness auto
termination
  by (relation "measure (\<lambda>(inputs, cursor, quote_pages_fetched, all_posts, all_edges, c, w).
                   nat (in_max_quote_pages inputs - quote_pages_fetched))")
    auto

definition seed_mode :: "seed_mode_inputs \<Rightarrow> ingest_config \<Rightarrow> world \<Rightarrow> ingest_result \<times> world" where
  "seed_mode inputs cfg w0 =
     (let client0 = new_client cfg w0;
          ((all_posts, all_edges), c1, w1) = fetch_thread inputs client0 w0
      in if int (length all_posts) \<ge> in_max_nodes inputs then
           (\<lparr>res_posts = py_take (in_max_nodes inputs) (dict_values all_posts),
             res_edges = deduplicate_edges all_edges,
             res_total_requests = total_requests (stats c1),
             res_cache_hits = cache_hits (stats c1),
             res_cache_misses = cache_misses (stats c1)\<rparr>, w1)
         else
           (let ((all_posts', all_edges'), c2, w2) =
                  quote_loop inputs None 0 all_posts all_edges c1 w1
            in (\<lparr>res_posts = py_take (in_max_nodes inputs) (dict_values all_posts'),
                  res_edges = deduplicate_edges all_edges',
                  res_total_requests = total_requests (stats c2),
                  res_cache_hits = cache_hits (stats c2),
                  res_cache_misses = cache_misses (stats c2)\<rparr>, w2)))"

section \<open>Graph assembler (app/services/runs_service.py)\<close>

text \<open>
  The stored post (app/db/models.py) carries its four counters itself; a stored edge comes
  back as the tuple (source, destination, type, creation time).
\<close>

record db_post =
  db_uri :: string
  db_cid :: "string option"
  db_author_did :: string
  db_author_handle :: string
  db_created_at :: datetime
  db_text :: string
  db_like_count :: int
  db_repost_count :: int
  db_reply_count :: int
  db_quote_count :: int

type_synonym edge_tuple = "string \<times> string \<times> string \<times> datetime option"

record graph_node =
  gn_uri :: string
  gn_text :: string
  gn_author_handle :: string
  gn_author_did :: string
  gn_created_at :: datetime
  gn_metrics :: post_metrics
  gn_in_degree :: int
  gn_out_degree :: int

record graph_edge =
  ge_src :: string
  ge_dst :: string
  ge_type :: string

record graph_stats =
  gs_node_count :: int
  gs_edge_count :: int
  gs_time_min :: "datetime option"
  gs_time_max :: "datetime option"

record graph_dto =
  g_nodes :: "graph_node list"
  g_edges :: "graph_edge list"
  g_stats :: graph_stats

definition score :: "db_post \<Rightarrow> int" where
  "score post = db_like_count post + db_repost_count post + db_reply_count post + db_quote_count post"

text \<open>
  \<open>list.sort(key=..., reverse=True)\<close> sorts by descending key and is stable: elements with
  equal keys keep their original order. On integer keys that is the stable ascending sort
  by the negated key.
\<close>

definition sort_reverse :: "('a \<Rightarrow> int) \<Rightarrow> 'a list \<Rightarrow> 'a list" where
  "sort_reverse key xs = sort_key (\<lambda>x. - key x) xs"

text \<open>\<open>if max_nodes and len(posts) > max_nodes\<close>: \<open>None\<close> and \<open>0\<close> are falsy.\<close>

definition trim_posts :: "db_post list \<Rightarrow> int option \<Rightarrow> db_post list" where
  "trim_posts posts max_nodes =
     (case max_nodes of
        None \<Rightarrow> posts
      | Some n \<Rightarrow>
          if n \<noteq> 0 \<and> int (length posts) > n then
            (let scored_posts = map (\<lambda>post. (score post, post)) posts;
                 scored_posts = sort_reverse fst scored_posts
             in map snd (py_take n scored_posts))
          else posts)"

definition filter_edges :: "string set \<Rightarrow> edge_tuple list \<Rightarrow> edge_tuple list" where
  "filter_edges uri_set edge_tuples =
     filter (\<lambda>(src, dst, etype, created). src \<in> uri_set \<and> dst \<in> uri_set) edge_tuples"

text \<open>The two degree dicts, filled by one pass over the filtered edges.\<close>

fun compute_degrees ::
  "edge_tuple list \<Rightarrow> (string, int) dict \<Rightarrow> (string, int) dict
    \<Rightarrow> (string, int) dict \<times> (string, int) dict" where
  "compute_degrees [] in_degree out_degree = (in_degree, out_degree)"
| "compute_degrees ((src, dst, etype, created) # rest) in_degree out_degree =
     (let out_degree' = dict_set src (get_default (dict_get out_degree src) 0 + 1) out_degree;
          in_degree' = dict_set dst (get_default (dict_get in_degree dst) 0 + 1) in_degree
      in compute_degrees rest in_degree' out_degree')"

definition build_graph :: "db_post list \<Rightarrow> edge_tuple list \<Rightarrow> int option \<Rightarrow> graph_dto" where
  "build_graph posts0 edge_tuples max_nodes =
     (let posts = trim_posts posts0 max_nodes;
          uri_set = set (map db_uri posts);
          filtered_edges = filter_edges uri_set edge_tuples;
          (in_degree, out_degree) = compute_degrees filtered_edges [] [];
          nodes = map (\<lambda>post.
                    \<lparr>gn_uri = db_uri post, gn_text = db_text post,
                     gn_author_handle = db_author_handle post,
                     gn_author_did = db_author_did post,
                     gn_created_at = db_created_at post,
                     gn_metrics = \<lparr>like_count = db_like_count post,
                                     repost_count = db_repost_count post,
                                     reply_count = db_reply_count post,
                                     quote_count = db_quote_count post\<rparr>,
                     gn_in_degree = get_default (dict_get in_degree (db_uri post)) 0,
                     gn_out_degree = get_default (dict_get out_degree (db_uri post)) 0\<rparr>) posts;
          edges = map (\<lambda>(src, dst, etype, created).
                    \<lparr>ge_src = src, ge_dst = dst, ge_type = etype\<rparr>) filtered_edges;
          timestamps = map db_created_at posts;
          time_min = (if posts \<noteq> [] then Some (Min (set timestamps)) else None);
          time_max = (if posts \<noteq> [] then Some (Max (set timestamps)) else None);
          stats = \<lparr>gs_node_count = int (length nodes), gs_edge_count = int (length edges),
                   gs_time_min = time_min, gs_time_max = time_max\<rparr>
      in \<lparr>g_nodes = nodes, g_edges = edges, g_stats = stats\<rparr>)"

section \<open>Specification-level notions\<close>

text \<open>
  The elements of \<open>xs\<close> that are the first of their key, in the order of \<open>xs\<close>: position
  \<open>i\<close> is kept exactly when no earlier position holds the same key.
\<close>

definition first_occurrences :: "('a \<Rightarrow> 'k) \<Rightarrow> 'a list \<Rightarrow> 'a list" where
  "first_occurrences key xs =
     map (\<lambda>i. xs ! i) (filter (\<lambda>i. \<forall>j<i. key (xs ! j) \<noteq> key (xs ! i)) [0..<length xs])"

text \<open>The same, leaving out every key of a set of keys seen before.\<close>

definition firsts_unseen :: "('a \<Rightarrow> 'k) \<Rightarrow> 'k set \<Rightarrow> 'a list \<Rightarrow> 'a list" where
  "firsts_unseen key seen xs =
     map (\<lambda>i. xs ! i)
       (filter (\<lambda>i. key (xs ! i) \<notin> seen \<and> (\<forall>j<i. key (xs ! j) \<noteq> key (xs ! i))) [0..<length xs])"

text \<open>The authored-content timestamp of a raw post: \<open>record.createdAt\<close>, if there is one.\<close>

definition created_field :: "raw_post \<Rightarrow> string option" where
  "created_field post_data =
     (case raw_record post_data of None \<Rightarrow> None | Some r \<Rightarrow> raw_createdAt r)"

text \<open>
  The QUOTE edge of a quote post, and the assignment \<open>all_posts[post.uri] = post\<close> of
  seed mode.
\<close>

definition quote_edge :: "string \<Rightarrow> post \<Rightarrow> edge" where
  "quote_edge target_uri p =
     \<lparr>src_uri = post_uri p, dst_uri = target_uri, edge_type = QUOTE,
      edge_created_at = Some (post_created_at p)\<rparr>"

definition insert_post :: "post \<Rightarrow> (string, post) dict \<Rightarrow> (string, post) dict" where
  "insert_post p d = dict_set (post_uri p) p d"

text \<open>
  The posts a thread traversal meets, in the order in which it records them: the post of
  a node, then those of its parent chain, then those of its replies in turn, each within
  the depth bound. Nodes without a usable post yield none.
\<close>

function thread_posts ::
  "(string \<Rightarrow> datetime option) \<Rightarrow> datetime \<Rightarrow> thread_node \<Rightarrow> int \<Rightarrow> int \<Rightarrow> post list" where
  "thread_posts fromiso now node max_depth current_depth =
     (if current_depth \<ge> max_depth then []
      else if node_type node = ''app.bsky.feed.defs#threadViewPost'' then
        (case node_post node of
           None \<Rightarrow> []
         | Some post_data \<Rightarrow>
             (case normalize_post fromiso now post_data of
                None \<Rightarrow> []
              | Some post \<Rightarrow>
                  post
                  # (case node_parent node of
                       None \<Rightarrow> []
                     | Some parent_node \<Rightarrow>
                         thread_posts fromiso now parent_node max_depth (current_depth + 1))
                  @ concat (map (\<lambda>reply_node.
                                   thread_posts fromiso now reply_node max_depth (current_depth + 1))
                              (node_replies node))))
      else [])"
  by pat_completeness auto
termination
  by (relation "measure (\<lambda>(fromiso, now, node, max_depth, current_depth).
                   nat (max_depth - current_depth))")
    auto

declare thread_posts.simps [simp del]

text \<open>The posts of the seed's thread in that order; none when the fetch fails.\<close>

definition seed_thread_posts :: "seed_mode_inputs \<Rightarrow> ingest_config \<Rightarrow> world \<Rightarrow> post list" where
  "seed_thread_posts inputs cfg w0 =
     (case get_post_thread (new_client cfg w0) w0 (in_seed_uri inputs) (in_max_depth inputs) 3 of
        (Inl e, c, w) \<Rightarrow> []
      | (Inr thread_response, c, w) \<Rightarrow>
          (case resp_thread thread_response of
             None \<Rightarrow> []
           | Some thread \<Rightarrow>
               thread_posts (fromisoformat w) (clock w) thread (in_max_depth inputs) 0))"

text \<open>A graph node carries the fields of the stored post it was built from.\<close>

definition same_post :: "graph_node \<Rightarrow> db_post \<Rightarrow> bool" where
  "same_post n p =
     (gn_uri n = db_uri p \<and> gn_text n = db_text p \<and> gn_author_handle n = db_author_handle p
      \<and> gn_author_did n = db_author_did p \<and> gn_created_at n = db_created_at p
      \<and> gn_metrics n = \<lparr>like_count = db_like_count p, repost_count = db_repost_count p,
                          reply_count = db_reply_count p, quote_count = db_quote_count p\<rparr>)"

subsection \<open>The retry loop, one pass at a time\<close>

text \<open>
  The defining equations of the two loops are unfolded where a proof asks for them. The
  three updates one pass of the retry loop can make: the request is counted, the failure
  is counted, the request is sent.
\<close>

declare get_retry_loop.simps [simp del]

declare quote_loop.simps [simp del]

definition count_request :: "client \<Rightarrow> client" where
  "count_request c = c\<lparr>request_count := request_count c + 1,
                        stats := (stats c)\<lparr>total_requests := total_requests (stats c) + 1\<rparr>\<rparr>"

definition count_failure :: "client \<Rightarrow> client" where
  "count_failure c = c\<lparr>stats := (stats c)\<lparr>failed_requests := failed_requests (stats c) + 1\<rparr>\<rparr>"

definition count_sent :: "world \<Rightarrow> world" where
  "count_sent w = w\<lparr>net_calls := net_calls w + 1\<rparr>"

text \<open>
  What a run of the retry loop from \<open>attempt\<close> leaves behind: one counted request per
  request sent, at most the remaining attempts of them, and no cache traffic but the final
  write.
\<close>

definition loop_frame ::
  "int \<Rightarrow> client \<Rightarrow> world \<Rightarrow> (client_error + api_response) \<Rightarrow> client \<Rightarrow> world \<Rightarrow> bool" where
  "loop_frame attempt c w r c' w' =
     (config c' = config c \<and> redis c' = redis c
      \<and> request_count c' - request_count c = int (net_calls w') - int (net_calls w)
      \<and> total_requests (stats c') - total_requests (stats c) = int (net_calls w') - int (net_calls w)
      \<and> int (net_calls w') - int (net_calls w) \<le> max 0 (max_retries (config c) - attempt)
      \<and> net_calls w \<le> net_calls w'
      \<and> cache_hits (stats c') = cache_hits (stats c)
      \<and> cache_misses (stats c') = cache_misses (stats c)
      \<and> cache_lookups w' = cache_lookups w
      \<and> (\<forall>d. r = Inr d \<longrightarrow> net_calls w < net_calls w'))"

text \<open>A sequence of \<open>get\<close> calls on one client, whatever each of them returns.\<close>

fun get_sequence :: "(string \<times> params) list \<Rightarrow> client \<Rightarrow> world \<Rightarrow> client \<times> world" where
  "get_sequence [] c w = (c, w)"
| "get_sequence ((endpoint, ps) # calls) c w =
     (case get c w endpoint ps of (r, c', w') \<Rightarrow> get_sequence calls c' w')"

section \<open>Example inputs\<close>

definition ex_cfg :: ingest_config where
  "ex_cfg = \<lparr>redis_enabled = True, max_retries = 3, max_requests_per_run = 1\<rparr>"

definition ex_payload :: api_response where
  "ex_payload = \<lparr>resp_posts = [], resp_cursor = None, resp_thread = None\<rparr>"

definition ex_world_503 :: world where
  "ex_world_503 =
     \<lparr>net = (\<lambda>n endpoint ps.
              HttpResponse \<lparr>status_code = 503, retry_after_header = NoRetryAfter, json_body = None\<rparr>),
      net_calls = 0, redis_ping_ok = False, store = (\<lambda>k. CacheEmpty), cache_lookups = 0,
      cache_write_ok = True, param_hash = (\<lambda>ps. ''0''), fromisoformat = (\<lambda>s. None), clock = 0\<rparr>"

definition ex_world_cached :: world where
  "ex_world_cached =
     \<lparr>net = (\<lambda>n endpoint ps. TransportError),
      net_calls = 0, redis_ping_ok = True, store = (\<lambda>k. CacheJson ex_payload), cache_lookups = 0,
      cache_write_ok = True, param_hash = (\<lambda>ps. ''0''), fromisoformat = (\<lambda>s. None), clock = 0\<rparr>"

definition ex_spent_client :: client where
  "ex_spent_client = (new_client ex_cfg ex_world_cached)\<lparr>request_count := 1\<rparr>"

definition ex_e1 :: edge where
  "ex_e1 = \<lparr>src_uri = ''b'', dst_uri = ''a'', edge_type = REPLY, edge_created_at = Some 1\<rparr>"

definition ex_e2 :: edge where
  "ex_e2 = \<lparr>src_uri = ''b'', dst_uri = ''a'', edge_type = REPLY, edge_created_at = Some 2\<rparr>"

definition ex_e3 :: edge where
  "ex_e3 = \<lparr>src_uri = ''b'', dst_uri = ''a'', edge_type = QUOTE, edge_created_at = Some 1\<rparr>"

definition ex_pA :: db_post where
  "ex_pA = \<lparr>db_uri = ''a'', db_cid = None, db_author_did = ''did:a'', db_author_handle = ''ha'',
            db_created_at = 10, db_text = ''A'', db_like_count = 100, db_repost_count = 50,
            db_reply_count = 20, db_quote_count = 10\<rparr>"

definition ex_pB :: db_post where
  "ex_pB = \<lparr>db_uri = ''b'', db_cid = None, db_author_did = ''did:b'', db_author_handle = ''hb'',
            db_created_at = 20, db_text = ''B'', db_like_count = 50, db_repost_count = 25,
            db_reply_count = 10, db_quote_count = 5\<rparr>"

definition ex_pC :: db_post where
  "ex_pC = \<lparr>db_uri = ''c'', db_cid = None, db_author_did = ''did:c'', db_author_handle = ''hc'',
            db_created_at = 30, db_text = ''C'', db_like_count = 5, db_repost_count = 2,
            db_reply_count = 1, db_quote_count = 0\<rparr>"

definition ex_pD :: db_post where
  "ex_pD = \<lparr>db_uri = ''d'', db_cid = None, db_author_did = ''did:d'', db_author_handle = ''hd'',
            db_created_at = 40, db_text = ''D'', db_like_count = 90, db_repost_count = 0,
            db_reply_count = 0, db_quote_count = 0\<rparr>"

definition ex_edge_tuples :: "edge_tuple list" where
  "ex_edge_tuples = [(''b'', ''a'', ''QUOTE'', None), (''c'', ''a'', ''QUOTE'', Some 30),
                     (''c'', ''x'', ''REPLY'', None)]"

text \<open>
  A parser that knows one timestamp, a well-formed raw post with a given URI, timestamps
  and like count, and a thread: the post \<open>at://x\<close> with its parent and one reply.
\<close>

definition ex_fromiso :: "string \<Rightarrow> datetime option" where
  "ex_fromiso s = (if s = ''2024-01-15T10:00:00+00:00'' then Some 1705312800000000 else None)"

definition ex_raw :: "string \<Rightarrow> string option \<Rightarrow> string option \<Rightarrow> int \<Rightarrow> raw_post" where
  "ex_raw uri created indexed likes =
     \<lparr>raw_uri = Some uri, raw_cid = None,
      raw_author = Some \<lparr>raw_did = Some ''did:plc:1'', raw_handle = Some ''user.test''\<rparr>,
      raw_record = Some \<lparr>raw_text = Some ''hello'', raw_createdAt = created\<rparr>,
      raw_indexedAt = indexed, raw_likeCount = Some likes, raw_repostCount = None,
      raw_replyCount = None, raw_quoteCount = None\<rparr>"

definition ex_thread :: thread_node where
  "ex_thread =
     ThreadNode ''app.bsky.feed.defs#threadViewPost''
       (Some (ex_raw ''at://x'' (Some ''2024-01-15T10:00:00Z'') None 1))
       (Some (ThreadNode ''app.bsky.feed.defs#threadViewPost''
                (Some (ex_raw ''at://parent'' (Some ''2024-01-15T10:00:00Z'') None 0)) None []))
       [ThreadNode ''app.bsky.feed.defs#threadViewPost''
          (Some (ex_raw ''at://reply'' (Some ''2024-01-15T10:00:00Z'') None 2)) None []]"

text \<open>
  A seed-mode run: the thread of \<open>at://x\<close> above, and one page of quotes that holds the
  reply again, now with five likes, and one more post.
\<close>

definition ex_post :: "string \<Rightarrow> int \<Rightarrow> post" where
  "ex_post uri likes =
     \<lparr>post_uri = uri, post_cid = None, post_author_did = ''did:plc:1'',
      post_author_handle = ''user.test'', post_created_at = 1705312800000000,
      post_text = ''hello'',
      post_metrics = \<lparr>like_count = likes, repost_count = 0, reply_count = 0, quote_count = 0\<rparr>\<rparr>"

definition ex_seed_inputs :: seed_mode_inputs where
  "ex_seed_inputs = \<lparr>in_seed_uri = ''at://x'', in_max_depth = 3, in_max_quote_pages = 3,
                      in_max_nodes = 10\<rparr>"

definition ex_seed_cfg :: ingest_config where
  "ex_seed_cfg = \<lparr>redis_enabled = False, max_retries = 3, max_requests_per_run = 500\<rparr>"

definition ex_quote_page :: api_response where
  "ex_quote_page =
     \<lparr>resp_posts = [ex_raw ''at://reply'' (Some ''2024-01-15T10:00:00Z'') None 5,
                     ex_raw ''at://q'' (Some ''2024-01-15T10:00:00Z'') None 0],
      resp_cursor = None, resp_thread = None\<rparr>"

definition ex_seed_world :: world where
  "ex_seed_world =
     \<lparr>net = (\<lambda>n endpoint ps.
              if endpoint = ''app.bsky.feed.getPostThread''
              then HttpResponse \<lparr>status_code = 200, retry_after_header = NoRetryAfter,
                     json_body = Some \<lparr>resp_posts = [], resp_cursor = None,
                                        resp_thread = Some ex_thread\<rparr>\<rparr>
              else HttpResponse \<lparr>status_code = 200, retry_after_header = NoRetryAfter,
                     json_body = Some ex_quote_page\<rparr>),
      net_calls = 0, redis_ping_ok = False, store = (\<lambda>k. CacheEmpty), cache_lookups = 0,
      cache_write_ok = True, param_hash = (\<lambda>ps. ''0''), fromisoformat = ex_fromiso, clock = 7\<rparr>"

text \<open>
  A second run with a cap of four posts: the same thread, and a page of three quotes with
  a cursor to a next page. The client after \<open>n\<close> requests without a cache, and the
  accumulators after the thread.
\<close>

definition ex_quote_page_more :: api_response where
  "ex_quote_page_more =
     \<lparr>resp_posts = [ex_raw ''at://reply'' (Some ''2024-01-15T10:00:00Z'') None 5,
                     ex_raw ''at://q'' (Some ''2024-01-15T10:00:00Z'') None 0,
                     ex_raw ''at://q2'' (Some ''2024-01-15T10:00:00Z'') None 0],
      resp_cursor = Some ''next'', resp_thread = None\<rparr>"

definition ex_capped_world :: world where
  "ex_capped_world =
     \<lparr>net = (\<lambda>n endpoint ps.
              if endpoint = ''app.bsky.feed.getPostThread''
              then HttpResponse \<lparr>status_code = 200, retry_after_header = NoRetryAfter,
                     json_body = Some \<lparr>resp_posts = [], resp_cursor = None,
                                        resp_thread = Some ex_thread\<rparr>\<rparr>
              else HttpResponse \<lparr>status_code = 200, retry_after_header = NoRetryAfter,
                     json_body = Some ex_quote_page_more\<rparr>),
      net_calls = 0, redis_ping_ok = False, store = (\<lambda>k. CacheEmpty), cache_lookups = 0,
      cache_write_ok = True, param_hash = (\<lambda>ps. ''0''), fromisoformat = ex_fromiso, clock = 7\<rparr>"

definition ex_capped_inputs :: seed_mode_inputs where
  "ex_capped_inputs = \<lparr>in_seed_uri = ''at://x'', in_max_depth = 3, in_max_quote_pages = 3,
                        in_max_nodes = 4\<rparr>"

definition ex_client_after :: "world \<Rightarrow> int \<Rightarrow> client" where
  "ex_client_after w n =
     (new_client ex_seed_cfg w)
       \<lparr>request_count := n,
        stats := \<lparr>total_requests = n, cache_hits = 0, cache_misses = n, failed_requests = 0\<rparr>\<rparr>"

definition ex_thread_dict :: "(string, post) dict" where
  "ex_thread_dict =
     [(''at://x'', ex_post ''at://x'' 1), (''at://parent'', ex_post ''at://parent'' 0),
      (''at://reply'', ex_post ''at://reply'' 2)]"

definition ex_thread_edges :: "edge list" where
  "ex_thread_edges =
     [quote_edge ''at://x'' (ex_post ''at://parent'' 0)\<lparr>edge_type := REPLY\<rparr>,
      quote_edge ''at://x'' (ex_post ''at://reply'' 2)\<lparr>edge_type := REPLY\<rparr>]"

section \<open>Properties of deduplication\<close>

lemma firsts_unseen_Nil: "firsts_unseen key seen [] = []"
  by (simp add: firsts_unseen_def)

lemma firsts_unseen_Cons:
  "firsts_unseen key seen (x # xs) =
     (if key x \<in> seen then firsts_unseen key seen xs
      else x # firsts_unseen key (insert (key x) seen) xs)"
proof -
  have upt: "[0..<length (x # xs)] = 0 # map Suc [0..<length xs]"
    by (simp add: upt_conv_Cons map_Suc_upt del: upt_Suc)
  show ?thesis
  proof (cases "key x \<in> seen")
    case True
    have "filter (\<lambda>i. key (xs ! i) \<notin> seen \<and> key x \<noteq> key (xs ! i) \<and> (\<forall>j<i. key (xs ! j) \<noteq> key (xs ! i)))
            [0..<length xs]
        = filter (\<lambda>i. key (xs ! i) \<notin> seen \<and> (\<forall>j<i. key (xs ! j) \<noteq> key (xs ! i))) [0..<length xs]"
      using True by (intro filter_cong) auto
    with True show ?thesis
      unfolding firsts_unseen_def upt
      by (simp add: filter_map o_def All_less_Suc2)
  next
    case False
    have "filter (\<lambda>i. key (xs ! i) \<notin> seen \<and> key x \<noteq> key (xs ! i) \<and> (\<forall>j<i. key (xs ! j) \<noteq> key (xs ! i)))
            [0..<length xs]
        = filter (\<lambda>i. key (xs ! i) \<notin> insert (key x) seen \<and> (\<forall>j<i. key (xs ! j) \<noteq> key (xs ! i)))
            [0..<length xs]"
      by (intro filter_cong) auto
    with False show ?thesis
      unfolding firsts_unseen_def upt
      by (simp add: filter_map o_def All_less_Suc2)
  qed
qed

lemma first_occurrences_unseen: "first_occurrences key xs = firsts_unseen key {} xs"
  by (simp add: first_occurrences_def firsts_unseen_def)

lemma dedup_edges_loop_acc:
  "dedup_edges_loop es seen acc = acc @ dedup_edges_loop es seen []"
proof (induction es arbitrary: seen acc)
  case Nil
  show ?case by simp
next
  case (Cons e es)
  show ?case
    using Cons.IH [of "insert (edge_key e) seen" "acc @ [e]"]
      Cons.IH [of "insert (edge_key e) seen" "[e]"] Cons.IH [of seen acc]
    by (simp add: edge_key_def Let_def)
qed

lemma dedup_edges_loop_firsts:
  "dedup_edges_loop es seen [] = firsts_unseen edge_key seen es"
proof (induction es arbitrary: seen)
  case Nil
  show ?case by (simp add: firsts_unseen_Nil)
next
  case (Cons e es)
  show ?case
    using Cons.IH [of seen] Cons.IH [of "insert (edge_key e) seen"]
      dedup_edges_loop_acc [of es "insert (edge_key e) seen" "[e]"]
    by (simp add: firsts_unseen_Cons edge_key_def Let_def)
qed

lemma dedup_edges_first: "deduplicate_edges es = first_occurrences edge_key es"
  by (simp add: deduplicate_edges_def dedup_edges_loop_firsts first_occurrences_unseen)

text \<open>
  Claim C9: \<open>deduplicate_edges\<close> keeps exactly the first occurrence of every (source,
  destination, type) triple, in the original order. Two edges with the same triple and
  different creation times collapse to the first; an edge that differs from another in its
  type only is kept next to it.
\<close>

theorem deduplicate_edges_first_occurrence:
  "deduplicate_edges es = first_occurrences edge_key es
   \<and> (edge_key e2 = edge_key e1 \<longrightarrow> deduplicate_edges [e1, e2] = [e1])
   \<and> (src_uri e2 = src_uri e1 \<and> dst_uri e2 = dst_uri e1 \<and> edge_type e2 \<noteq> edge_type e1
        \<longrightarrow> deduplicate_edges [e1, e2] = [e1, e2])"
proof (intro conjI impI)
  show "deduplicate_edges es = first_occurrences edge_key es"
    by (rule dedup_edges_first)
next
  assume "edge_key e2 = edge_key e1"
  then show "deduplicate_edges [e1, e2] = [e1]"
    by (simp add: deduplicate_edges_def edge_key_def)
next
  assume "src_uri e2 = src_uri e1 \<and> dst_uri e2 = dst_uri e1 \<and> edge_type e2 \<noteq> edge_type e1"
  then show "deduplicate_edges [e1, e2] = [e1, e2]"
    by (simp add: deduplicate_edges_def)
qed

theorem deduplicate_edges_first_occurrence_witness:
  "deduplicate_edges [ex_e1, ex_e2, ex_e3] = [ex_e1, ex_e3]
   \<and> edge_key ex_e2 = edge_key ex_e1 \<and> deduplicate_edges [ex_e1, ex_e2] = [ex_e1]
   \<and> src_uri ex_e3 = src_uri ex_e1 \<and> dst_uri ex_e3 = dst_uri ex_e1
   \<and> edge_type ex_e3 \<noteq> edge_type ex_e1 \<and> deduplicate_edges [ex_e1, ex_e3] = [ex_e1, ex_e3]"
  using deduplicate_edges_first_occurrence [of "[ex_e1, ex_e2, ex_e3]" ex_e2 ex_e1]
    deduplicate_edges_first_occurrence [of "[ex_e1, ex_e2, ex_e3]" ex_e3 ex_e1]
  by (simp add: first_occurrences_unseen firsts_unseen_Cons firsts_unseen_Nil edge_key_def
      ex_e1_def ex_e2_def ex_e3_def)

section \<open>Properties of the client\<close>

lemma get_retry_loop_done:
  "\<not> attempt < max_retries (config c) \<Longrightarrow>
     get_retry_loop endpoint ps cache_key attempt c w = (Inl FetchFailed, c, w)"
  by (subst get_retry_loop.simps) simp

lemma get_retry_loop_unfold:
  assumes "attempt < max_retries (config c)"
  shows "get_retry_loop endpoint ps cache_key attempt c w =
     (case net w (net_calls w) endpoint ps of
        TransportError \<Rightarrow>
          (if attempt \<ge> max_retries (config c) - 1
           then (Inl MaxRetriesReached, count_failure (count_request c), count_sent w)
           else get_retry_loop endpoint ps cache_key (attempt + 1)
                  (count_failure (count_request c)) (count_sent w))
      | HttpResponse response \<Rightarrow>
          if status_code response = 429 then
            (if retry_after_header response = RetryAfterInvalid
             then (Inl ValueError, count_request c, count_sent w)
             else get_retry_loop endpoint ps cache_key (attempt + 1) (count_request c) (count_sent w))
          else if status_code response \<ge> 500 then
            get_retry_loop endpoint ps cache_key (attempt + 1) (count_request c) (count_sent w)
          else if raise_for_status (status_code response) then
            (if attempt \<ge> max_retries (config c) - 1
             then (Inl MaxRetriesReached, count_failure (count_request c), count_sent w)
             else get_retry_loop endpoint ps cache_key (attempt + 1)
                    (count_failure (count_request c)) (count_sent w))
          else
            (case json_body response of
               None \<Rightarrow> (Inl ValueError, count_request c, count_sent w)
             | Some data \<Rightarrow>
                 (Inr data, count_request c,
                  set_cache (count_request c) (count_sent w) cache_key data)))"
  using assms
  by (subst get_retry_loop.simps)
     (simp add: Let_def count_request_def count_failure_def count_sent_def
           cong: http_outcome.case_cong option.case_cong if_cong)

lemma loop_frame_done: "loop_frame attempt c w (Inl e) c w"
  by (simp add: loop_frame_def)

lemma loop_frame_last:
  assumes "attempt < max_retries (config c)"
  shows "loop_frame attempt c w r (count_request c) (count_sent w)"
    and "loop_frame attempt c w r (count_failure (count_request c)) (count_sent w)"
    and "loop_frame attempt c w r (count_request c) (set_cache (count_request c) (count_sent w) k d)"
  using assms
  by (simp_all add: loop_frame_def count_request_def count_failure_def count_sent_def set_cache_def)

lemma loop_frame_step:
  assumes "attempt < max_retries (config c)"
  shows "loop_frame (attempt + 1) (count_request c) (count_sent w) r c' w'
           \<Longrightarrow> loop_frame attempt c w r c' w'"
    and "loop_frame (attempt + 1) (count_failure (count_request c)) (count_sent w) r c' w'
           \<Longrightarrow> loop_frame attempt c w r c' w'"
  using assms
  by (simp_all add: loop_frame_def count_request_def count_failure_def count_sent_def)

lemma get_retry_loop_frame:
  "get_retry_loop endpoint ps cache_key attempt c w = (r, c', w') \<Longrightarrow> loop_frame attempt c w r c' w'"
proof (induction "nat (max_retries (config c) - attempt)" arbitrary: attempt c w rule: less_induct)
  case less
  show ?case
  proof (cases "attempt < max_retries (config c)")
    case False
    with less.prems show ?thesis
      by (auto simp add: get_retry_loop_done loop_frame_done)
  next
    case True
    have cfg: "config (count_request c) = config c"
      "config (count_failure (count_request c)) = config c"
      by (simp_all add: count_request_def count_failure_def)
    have IH1: "get_retry_loop endpoint ps cache_key (attempt + 1) (count_request c) (count_sent w)
                 = (r, c', w') \<Longrightarrow> loop_frame attempt c w r c' w'"
      using less.hyps [of "count_request c" "attempt + 1" "count_sent w"] True cfg
        loop_frame_step(1) [OF True] by simp
    have IH2: "get_retry_loop endpoint ps cache_key (attempt + 1)
                 (count_failure (count_request c)) (count_sent w)
                 = (r, c', w') \<Longrightarrow> loop_frame attempt c w r c' w'"
      using less.hyps [of "count_failure (count_request c)" "attempt + 1" "count_sent w"] True cfg
        loop_frame_step(2) [OF True] by simp
    show ?thesis
      using less.prems IH1 IH2 loop_frame_last [OF True]
      unfolding get_retry_loop_unfold [OF True]
      by (auto split: http_outcome.splits option.splits if_splits)
  qed
qed

lemma get_from_cache_frame:
  assumes "get_from_cache c w k = (x, c1, w1)"
  shows "config c1 = config c \<and> redis c1 = redis c \<and> request_count c1 = request_count c
         \<and> total_requests (stats c1) = total_requests (stats c)
         \<and> cache_misses (stats c1) = cache_misses (stats c)
         \<and> failed_requests (stats c1) = failed_requests (stats c)
         \<and> net_calls w1 = net_calls w"
  using assms
  by (auto simp add: get_from_cache_def Let_def split: if_splits cache_read.splits)

lemma get_counts:
  assumes "get c w endpoint ps = (r, c', w')"
  shows "config c' = config c \<and> redis c' = redis c
         \<and> request_count c' - request_count c = int (net_calls w') - int (net_calls w)
         \<and> int (net_calls w') - int (net_calls w) \<le> max 0 (max_retries (config c))
         \<and> net_calls w \<le> net_calls w'
         \<and> (check_budget c \<longrightarrow> net_calls w' = net_calls w)"
proof (cases "check_budget c")
  case True
  with assms show ?thesis by (simp add: get_def)
next
  case False
  obtain x c1 w1 where gc: "get_from_cache c w (make_cache_key w endpoint ps) = (x, c1, w1)"
    by (metis prod_cases3)
  note fr = get_from_cache_frame [OF gc]
  show ?thesis
  proof (cases x)
    case (Some cached)
    with assms False gc fr show ?thesis by (simp add: get_def)
  next
    case None
    let ?c2 = "c1\<lparr>stats := (stats c1)\<lparr>cache_misses := cache_misses (stats c1) + 1\<rparr>\<rparr>"
    from assms False gc None
    have "get_retry_loop endpoint ps (make_cache_key w endpoint ps) 0 ?c2 w1 = (r, c', w')"
      by (simp add: get_def)
    from get_retry_loop_frame [OF this] fr False show ?thesis
      by (simp add: loop_frame_def)
  qed
qed

lemma get_sequence_counts:
  "get_sequence calls c w = (c', w') \<Longrightarrow>
     config c' = config c
     \<and> request_count c' - request_count c = int (net_calls w') - int (net_calls w)
     \<and> (request_count c \<le> max_requests_per_run (config c) + max 0 (max_retries (config c) - 1)
          \<longrightarrow> request_count c' \<le> max_requests_per_run (config c) + max 0 (max_retries (config c) - 1))"
proof (induction calls arbitrary: c w)
  case Nil
  then show ?case by simp
next
  case (Cons call calls)
  obtain endpoint ps where call: "call = (endpoint, ps)" by (cases call)
  obtain r c1 w1 where g: "get c w endpoint ps = (r, c1, w1)" by (metis prod_cases3)
  from Cons.prems call g have rest: "get_sequence calls c1 w1 = (c', w')" by simp
  note one = get_counts [OF g]
  note more = Cons.IH [OF rest]
  have bound: "request_count c \<le> max_requests_per_run (config c) + max 0 (max_retries (config c) - 1)
     \<Longrightarrow> request_count c1 \<le> max_requests_per_run (config c) + max 0 (max_retries (config c) - 1)"
    using one by (cases "check_budget c") (auto simp add: check_budget_def)
  show ?case using one more bound by auto
qed

text \<open>
  Claim C3, as stated: the request counter never exceeds \<open>max_requests_per_run\<close>. With a
  budget of one request and three attempts, a fresh client whose first call meets a server
  error on every attempt ends with a counter of three.
\<close>

theorem request_counter_exceeds_budget:
  "\<not> request_count (fst (snd (get (new_client ex_cfg ex_world_503) ex_world_503
          ''app.bsky.feed.searchPosts'' [(''q'', PStr ''x'')])))
      \<le> max_requests_per_run ex_cfg"
  by (simp add: get_def check_budget_def new_client_def ex_cfg_def ex_world_503_def
        get_from_cache_def get_retry_loop.simps Let_def)

text \<open>
  Claim C3, amended: over any sequence of \<open>get\<close> calls on one client the request counter
  grows by exactly the number of requests sent. The budget is checked on entry to \<open>get\<close>
  only, so the counter stays within \<open>max_requests_per_run\<close> plus the retries of the last
  admitted call, that is \<open>max_requests_per_run + max 0 (max_retries - 1)\<close>.
\<close>

theorem request_counter_once_per_network_call:
  "get_sequence calls c w = (c', w') \<Longrightarrow>
     request_count c' - request_count c = int (net_calls w') - int (net_calls w)
     \<and> (request_count c \<le> max_requests_per_run (config c) + max 0 (max_retries (config c) - 1)
          \<longrightarrow> request_count c' \<le> max_requests_per_run (config c) + max 0 (max_retries (config c) - 1))"
  using get_sequence_counts [of calls c w c' w'] by simp

theorem request_counter_once_per_network_call_witness:
  "get_sequence [(''app.bsky.feed.searchPosts'', [(''q'', PStr ''x'')]),
                 (''app.bsky.feed.searchPosts'', [(''q'', PStr ''y'')])]
       (new_client ex_cfg ex_world_503) ex_world_503
     = ((new_client ex_cfg ex_world_503)
          \<lparr>request_count := 3,
           stats := \<lparr>total_requests = 3, cache_hits = 0, cache_misses = 1, failed_requests = 0\<rparr>\<rparr>,
        ex_world_503\<lparr>net_calls := 3\<rparr>)
   \<and> request_count (new_client ex_cfg ex_world_503)
        \<le> max_requests_per_run (config (new_client ex_cfg ex_world_503))
            + max 0 (max_retries (config (new_client ex_cfg ex_world_503)) - 1)
   \<and> (3::int) - 0 = int 3 - int 0 \<and> (3::int) \<le> 1 + max 0 (3 - 1)"
proof -
  have run: "get_sequence [(''app.bsky.feed.searchPosts'', [(''q'', PStr ''x'')]),
                 (''app.bsky.feed.searchPosts'', [(''q'', PStr ''y'')])]
       (new_client ex_cfg ex_world_503) ex_world_503
     = ((new_client ex_cfg ex_world_503)
          \<lparr>request_count := 3,
           stats := \<lparr>total_requests = 3, cache_hits = 0, cache_misses = 1, failed_requests = 0\<rparr>\<rparr>,
        ex_world_503\<lparr>net_calls := 3\<rparr>)"
    by (simp add: get_def check_budget_def new_client_def ex_cfg_def ex_world_503_def
          get_from_cache_def get_retry_loop.simps Let_def)
  from request_counter_once_per_network_call [OF run] run show ?thesis
    by (simp add: new_client_def ex_cfg_def ex_world_503_def)
qed

text \<open>
  Claim C8: once the request counter has reached the budget, \<open>get\<close> fails with the
  budget error and returns the client and the world as they were: no request is sent, no
  cache lookup is made, no counter moves.
\<close>

theorem get_budget_exhausted:
  "request_count c \<ge> max_requests_per_run (config c) \<Longrightarrow>
     get c w endpoint ps = (Inl BudgetExhausted, c, w)"
  by (simp add: get_def check_budget_def)

theorem get_budget_exhausted_witness:
  "request_count ex_spent_client \<ge> max_requests_per_run (config ex_spent_client)
   \<and> get ex_spent_client ex_world_cached ''app.bsky.feed.getQuotes'' [(''uri'', PStr ''a'')]
       = (Inl BudgetExhausted, ex_spent_client, ex_world_cached)"
proof -
  have full: "request_count ex_spent_client \<ge> max_requests_per_run (config ex_spent_client)"
    by (simp add: ex_spent_client_def new_client_def ex_cfg_def)
  from get_budget_exhausted [OF full] full show ?thesis by simp
qed

text \<open>
  Claim C10: a \<open>get\<close> call answered from the cache, that is, one that returns a payload
  without sending a request, changes the client in its cache-hit counter only: the budget
  counter, the remaining budget, the total-request, cache-miss and failed-request counters
  stay as they were, and the payload is the one the cache held.
\<close>

theorem get_cache_hit_frame:
  assumes "get c w endpoint ps = (Inr d, c', w')" and "net_calls w' = net_calls w"
  shows "c' = c\<lparr>stats := (stats c)\<lparr>cache_hits := cache_hits (stats c) + 1\<rparr>\<rparr>
         \<and> request_count c' = request_count c
         \<and> get_remaining_budget c' = get_remaining_budget c
         \<and> total_requests (stats c') = total_requests (stats c)
         \<and> cache_misses (stats c') = cache_misses (stats c)
         \<and> failed_requests (stats c') = failed_requests (stats c)
         \<and> cache_hits (stats c') = cache_hits (stats c) + 1
         \<and> store w (make_cache_key w endpoint ps) = CacheJson d"
proof -
  from assms(1) have nb: "\<not> check_budget c"
    by (auto simp add: get_def)
  obtain x c1 w1 where gc: "get_from_cache c w (make_cache_key w endpoint ps) = (x, c1, w1)"
    by (metis prod_cases3)
  show ?thesis
  proof (cases x)
    case None
    let ?c2 = "c1\<lparr>stats := (stats c1)\<lparr>cache_misses := cache_misses (stats c1) + 1\<rparr>\<rparr>"
    from assms(1) nb gc None
    have "get_retry_loop endpoint ps (make_cache_key w endpoint ps) 0 ?c2 w1 = (Inr d, c', w')"
      by (simp add: get_def)
    from get_retry_loop_frame [OF this] have "net_calls w1 < net_calls w'"
      by (simp add: loop_frame_def)
    with get_from_cache_frame [OF gc] assms(2) show ?thesis by simp
  next
    case (Some cached)
    with assms(1) nb gc have res: "cached = d" "c' = c1" "w' = w1"
      by (simp_all add: get_def)
    from gc Some res(1) have
      "c1 = c\<lparr>stats := (stats c)\<lparr>cache_hits := cache_hits (stats c) + 1\<rparr>\<rparr>
       \<and> store w (make_cache_key w endpoint ps) = CacheJson d"
      by (auto simp add: get_from_cache_def Let_def split: if_splits cache_read.splits)
    with res show ?thesis by (simp add: get_remaining_budget_def)
  qed
qed

theorem get_cache_hit_frame_witness:
  "get (new_client ex_cfg ex_world_cached) ex_world_cached ''app.bsky.feed.getQuotes''
       [(''uri'', PStr ''a'')]
     = (Inr ex_payload,
        (new_client ex_cfg ex_world_cached)
          \<lparr>stats := \<lparr>total_requests = 0, cache_hits = 1, cache_misses = 0, failed_requests = 0\<rparr>\<rparr>,
        ex_world_cached\<lparr>cache_lookups := 1\<rparr>)
   \<and> net_calls (ex_world_cached\<lparr>cache_lookups := 1\<rparr>) = net_calls ex_world_cached
   \<and> get_remaining_budget
        ((new_client ex_cfg ex_world_cached)
          \<lparr>stats := \<lparr>total_requests = 0, cache_hits = 1, cache_misses = 0, failed_requests = 0\<rparr>\<rparr>)
      = get_remaining_budget (new_client ex_cfg ex_world_cached)"
proof -
  have run: "get (new_client ex_cfg ex_world_cached) ex_world_cached ''app.bsky.feed.getQuotes''
       [(''uri'', PStr ''a'')]
     = (Inr ex_payload,
        (new_client ex_cfg ex_world_cached)
          \<lparr>stats := \<lparr>total_requests = 0, cache_hits = 1, cache_misses = 0, failed_requests = 0\<rparr>\<rparr>,
        ex_world_cached\<lparr>cache_lookups := 1\<rparr>)"
    by (simp add: get_def check_budget_def new_client_def ex_cfg_def ex_world_cached_def
          get_from_cache_def make_cache_key_def Let_def)
  have same: "net_calls (ex_world_cached\<lparr>cache_lookups := 1\<rparr>) = net_calls ex_world_cached"
    by simp
  from get_cache_hit_frame [OF run same] run same show ?thesis by blast
qed

section \<open>Properties of the graph assembler\<close>

lemma dict_get_set: "dict_get (dict_set k v d) k' = (if k' = k then Some v else dict_get d k')"
  by (induction d) (auto simp add: dict_get_def)

lemma compute_degrees_counts:
  "compute_degrees es ind outd = (ind', outd') \<Longrightarrow>
     get_default (dict_get ind' u) 0
       = get_default (dict_get ind u) 0 + int (length (filter (\<lambda>(s, d, t, c). d = u) es))
   \<and> get_default (dict_get outd' u) 0
       = get_default (dict_get outd u) 0 + int (length (filter (\<lambda>(s, d, t, c). s = u) es))"
proof (induction es ind outd rule: compute_degrees.induct)
  case (1 ind outd)
  then show ?case by simp
next
  case (2 src dst etype created rest ind outd)
  from "2.prems" "2.IH" show ?case
    by (simp add: Let_def dict_get_set get_default_def)
qed

lemma build_graph_nodes:
  "list_all2 same_post (g_nodes (build_graph posts es mx)) (trim_posts posts mx)"
  by (simp add: build_graph_def Let_def split_beta list_all2_map1 same_post_def list_all2_same)

lemma build_graph_node_uris:
  "map gn_uri (g_nodes (build_graph posts es mx)) = map db_uri (trim_posts posts mx)"
  by (simp add: build_graph_def Let_def split_beta o_def)

lemma build_graph_edges:
  "g_edges (build_graph posts es mx)
     = map (\<lambda>(src, dst, etype, created). \<lparr>ge_src = src, ge_dst = dst, ge_type = etype\<rparr>)
         (filter_edges (set (map db_uri (trim_posts posts mx))) es)"
  by (simp add: build_graph_def Let_def split_beta)

lemma build_graph_degrees:
  assumes "n \<in> set (g_nodes (build_graph posts es mx))"
  shows "gn_in_degree n
           = int (length (filter (\<lambda>(s, d, t, c). d = gn_uri n)
                    (filter_edges (set (map db_uri (trim_posts posts mx))) es)))
       \<and> gn_out_degree n
           = int (length (filter (\<lambda>(s, d, t, c). s = gn_uri n)
                    (filter_edges (set (map db_uri (trim_posts posts mx))) es)))"
proof -
  let ?fe = "filter_edges (set (map db_uri (trim_posts posts mx))) es"
  obtain ind outd where cd: "compute_degrees ?fe [] [] = (ind, outd)"
    by (cases "compute_degrees ?fe [] []")
  from assms cd have
    "gn_in_degree n = get_default (dict_get ind (gn_uri n)) 0
     \<and> gn_out_degree n = get_default (dict_get outd (gn_uri n)) 0"
    by (auto simp add: build_graph_def Let_def)
  with compute_degrees_counts [OF cd, of "gn_uri n"] show ?thesis
    by (simp add: dict_get_def get_default_def)
qed

lemma insort_key_map:
  "insort_key h (m x) (map m ys) = map m (insort_key (\<lambda>y. h (m y)) x ys)"
  by (induction ys) simp_all

lemma sort_key_map:
  "sort_key h (map m xs) = map m (sort_key (\<lambda>y. h (m y)) xs)"
  by (induction xs) (simp_all add: insort_key_map)

lemma trim_posts_sorted:
  assumes "0 < n" and "n < int (length posts)"
  shows "trim_posts posts (Some n) = take (nat n) (sort_key (\<lambda>p. - score p) posts)"
  using assms
  by (simp add: trim_posts_def sort_reverse_def py_take_def sort_key_map take_map o_def)

lemma trim_posts_untrimmed:
  assumes "max_nodes = None \<or> max_nodes = Some 0
           \<or> (\<exists>n. max_nodes = Some n \<and> int (length posts) \<le> n)"
  shows "trim_posts posts max_nodes = posts"
  using assms by (auto simp add: trim_posts_def)

text \<open>
  Claim C5, as stated: whenever the post count exceeds a set \<open>maxNodes\<close>, exactly \<open>maxNodes\<close>
  posts are kept. With \<open>maxNodes = 0\<close> and one post the count exceeds the limit, and the
  post is kept: the guard \<open>if max_nodes and ...\<close> treats \<open>0\<close> as unset.
\<close>

theorem build_graph_max_nodes_zero:
  "int (length [ex_pA]) > 0 \<and> length (g_nodes (build_graph [ex_pA] [] (Some 0))) \<noteq> nat 0"
  by (simp add: build_graph_def trim_posts_def filter_edges_def Let_def)

text \<open>
  Claim C5, amended: for a positive \<open>maxNodes\<close> smaller than the post count, the nodes
  are the first \<open>maxNodes\<close> posts of the stable descending sort by engagement score: a
  permutation \<open>S\<close> of the posts, sorted by score descending, in which posts of equal score
  keep their input order; the node list follows that order, field by field. When
  \<open>maxNodes\<close> is unset or zero, or the post count does not exceed it, the nodes are the
  input posts in input order.
\<close>

theorem build_graph_top_nodes:
  "(max_nodes = Some n \<and> 0 < n \<and> n < int (length posts) \<longrightarrow>
      (\<exists>S. mset S = mset posts
           \<and> sorted_wrt (\<lambda>a b. score a \<ge> score b) S
           \<and> (\<forall>k. filter (\<lambda>p. score p = k) S = filter (\<lambda>p. score p = k) posts)
           \<and> length (g_nodes (build_graph posts edge_tuples max_nodes)) = nat n
           \<and> list_all2 same_post (g_nodes (build_graph posts edge_tuples max_nodes))
                (take (nat n) S)))
   \<and> (max_nodes = None \<or> max_nodes = Some 0
        \<or> (\<exists>n. max_nodes = Some n \<and> int (length posts) \<le> n) \<longrightarrow>
      list_all2 same_post (g_nodes (build_graph posts edge_tuples max_nodes)) posts)"
proof (intro conjI impI)
  assume h: "max_nodes = Some n \<and> 0 < n \<and> n < int (length posts)"
  let ?S = "sort_key (\<lambda>p. - score p) posts"
  have trim: "trim_posts posts max_nodes = take (nat n) ?S"
    using h by (simp add: trim_posts_sorted)
  have perm: "mset ?S = mset posts" by simp
  have "sorted (map (\<lambda>p. - score p) ?S)" by (rule sorted_sort_key)
  then have desc: "sorted_wrt (\<lambda>a b. score a \<ge> score b) ?S"
    by (simp add: sorted_map)
  have stable: "filter (\<lambda>p. score p = k) ?S = filter (\<lambda>p. score p = k) posts" for k
    using sort_key_stable [of "\<lambda>p. - score p" "- k" posts] by simp
  have nodes: "list_all2 same_post (g_nodes (build_graph posts edge_tuples max_nodes))
                 (take (nat n) ?S)"
    using build_graph_nodes [of posts edge_tuples max_nodes] trim by simp
  have len: "length (g_nodes (build_graph posts edge_tuples max_nodes)) = nat n"
  proof -
    from h have "nat n < length posts" by linarith
    with list_all2_lengthD [OF nodes] show ?thesis by simp
  qed
  from perm desc stable nodes len
  show "\<exists>S. mset S = mset posts
           \<and> sorted_wrt (\<lambda>a b. score a \<ge> score b) S
           \<and> (\<forall>k. filter (\<lambda>p. score p = k) S = filter (\<lambda>p. score p = k) posts)
           \<and> length (g_nodes (build_graph posts edge_tuples max_nodes)) = nat n
           \<and> list_all2 same_post (g_nodes (build_graph posts edge_tuples max_nodes))
                (take (nat n) S)"
    by blast
next
  assume "max_nodes = None \<or> max_nodes = Some 0
        \<or> (\<exists>n. max_nodes = Some n \<and> int (length posts) \<le> n)"
  from trim_posts_untrimmed [OF this] build_graph_nodes [of posts edge_tuples max_nodes]
  show "list_all2 same_post (g_nodes (build_graph posts edge_tuples max_nodes)) posts"
    by simp
qed

theorem build_graph_top_nodes_witness:
  "Some 3 = Some (3::int) \<and> (0::int) < 3 \<and> 3 < int (length [ex_pC, ex_pB, ex_pD, ex_pA])
   \<and> map gn_uri (g_nodes (build_graph [ex_pC, ex_pB, ex_pD, ex_pA] ex_edge_tuples (Some 3)))
       = [''a'', ''b'', ''d'']
   \<and> map gn_uri (g_nodes (build_graph [ex_pC, ex_pB, ex_pD, ex_pA] ex_edge_tuples None))
       = [''c'', ''b'', ''d'', ''a'']"
  using build_graph_top_nodes [of "Some 3" 3 "[ex_pC, ex_pB, ex_pD, ex_pA]" ex_edge_tuples]
    build_graph_top_nodes [of None 3 "[ex_pC, ex_pB, ex_pD, ex_pA]" ex_edge_tuples]
  by (simp add: build_graph_node_uris trim_posts_def sort_reverse_def py_take_def score_def
        ex_pA_def ex_pB_def ex_pC_def ex_pD_def)

text \<open>
  Claim C6: the edges of the assembled graph are exactly the input edges with both
  endpoints among the returned nodes, in input order, and the in-degree (out-degree) of
  every returned node is the number of returned edges that end (start) at it.
\<close>

theorem build_graph_edges_and_degrees:
  "g_edges (build_graph posts edge_tuples max_nodes)
     = map (\<lambda>(src, dst, etype, created). \<lparr>ge_src = src, ge_dst = dst, ge_type = etype\<rparr>)
         (filter (\<lambda>(src, dst, etype, created).
                    src \<in> gn_uri ` set (g_nodes (build_graph posts edge_tuples max_nodes))
                    \<and> dst \<in> gn_uri ` set (g_nodes (build_graph posts edge_tuples max_nodes)))
            edge_tuples)
   \<and> (\<forall>n \<in> set (g_nodes (build_graph posts edge_tuples max_nodes)).
         gn_in_degree n
           = int (length (filter (\<lambda>e. ge_dst e = gn_uri n)
                            (g_edges (build_graph posts edge_tuples max_nodes))))
       \<and> gn_out_degree n
           = int (length (filter (\<lambda>e. ge_src e = gn_uri n)
                            (g_edges (build_graph posts edge_tuples max_nodes)))))"
proof -
  have uris: "gn_uri ` set (g_nodes (build_graph posts edge_tuples max_nodes))
                = set (map db_uri (trim_posts posts max_nodes))"
    using build_graph_node_uris [of posts edge_tuples max_nodes]
    by (metis set_map)
  have edges: "g_edges (build_graph posts edge_tuples max_nodes)
     = map (\<lambda>(src, dst, etype, created). \<lparr>ge_src = src, ge_dst = dst, ge_type = etype\<rparr>)
         (filter (\<lambda>(src, dst, etype, created).
                    src \<in> gn_uri ` set (g_nodes (build_graph posts edge_tuples max_nodes))
                    \<and> dst \<in> gn_uri ` set (g_nodes (build_graph posts edge_tuples max_nodes)))
            edge_tuples)"
    unfolding uris by (simp add: build_graph_edges filter_edges_def)
  have degs: "gn_in_degree n
           = int (length (filter (\<lambda>e. ge_dst e = gn_uri n)
                            (g_edges (build_graph posts edge_tuples max_nodes))))
       \<and> gn_out_degree n
           = int (length (filter (\<lambda>e. ge_src e = gn_uri n)
                            (g_edges (build_graph posts edge_tuples max_nodes))))"
    if "n \<in> set (g_nodes (build_graph posts edge_tuples max_nodes))" for n
    using build_graph_degrees [OF that]
    by (simp add: build_graph_edges o_def split_def)
  from edges degs show ?thesis by blast
qed

theorem build_graph_edges_and_degrees_witness:
  "g_edges (build_graph [ex_pA, ex_pB, ex_pC] ex_edge_tuples None)
     = [\<lparr>ge_src = ''b'', ge_dst = ''a'', ge_type = ''QUOTE''\<rparr>,
        \<lparr>ge_src = ''c'', ge_dst = ''a'', ge_type = ''QUOTE''\<rparr>]
   \<and> map (\<lambda>n. (gn_uri n, gn_in_degree n, gn_out_degree n))
        (g_nodes (build_graph [ex_pA, ex_pB, ex_pC] ex_edge_tuples None))
     = [(''a'', 2, 0), (''b'', 0, 1), (''c'', 0, 1)]"
  using build_graph_edges_and_degrees [of "[ex_pA, ex_pB, ex_pC]" ex_edge_tuples None]
  by (simp add: build_graph_def trim_posts_def filter_edges_def Let_def dict_get_def
        get_default_def ex_edge_tuples_def ex_pA_def ex_pB_def ex_pC_def)

section \<open>Properties of the normalizer\<close>

text \<open>
  Claim C2, as stated: when \<open>record.createdAt\<close> does not parse, the creation time is the
  parsed \<open>indexedAt\<close> if that parses. Here \<open>record.createdAt\<close> is not a date and
  \<open>indexedAt\<close> parses, and the post gets the current time (7).
\<close>

theorem created_at_ignores_index_timestamp:
  "parse_timestamp ex_fromiso (Some ''not-a-date'') = None
   \<and> parse_timestamp ex_fromiso (Some ''2024-01-15T10:00:00Z'') = Some 1705312800000000
   \<and> map_option post_created_at
        (normalize_post ex_fromiso 7
           (ex_raw ''at://p'' (Some ''not-a-date'') (Some ''2024-01-15T10:00:00Z'') 0))
       = Some 7"
  by (simp add: parse_timestamp_def normalize_post_def ex_raw_def ex_fromiso_def endswith_Z_def
        py_or_def get_default_def Let_def)

text \<open>
  Claim C2, amended: for every raw post that \<open>normalize_post\<close> accepts, the creation time
  is the parsed \<open>record.createdAt\<close> when that parses; the parsed \<open>indexedAt\<close> when
  \<open>record.createdAt\<close> is absent or empty and \<open>indexedAt\<close> parses; and the current time
  otherwise: when \<open>record.createdAt\<close> is absent or empty and \<open>indexedAt\<close> does not parse,
  and when \<open>record.createdAt\<close> is present and does not parse, whatever \<open>indexedAt\<close> is.
\<close>

theorem normalize_post_created_at:
  assumes "normalize_post fromiso now post_data = Some p"
  shows "(\<forall>t. parse_timestamp fromiso (created_field post_data) = Some t \<longrightarrow> post_created_at p = t)
       \<and> (\<not> truthy (created_field post_data) \<longrightarrow>
            (\<forall>t. parse_timestamp fromiso (raw_indexedAt post_data) = Some t \<longrightarrow> post_created_at p = t))
       \<and> (\<not> truthy (created_field post_data)
            \<and> parse_timestamp fromiso (raw_indexedAt post_data) = None \<longrightarrow> post_created_at p = now)
       \<and> (truthy (created_field post_data)
            \<and> parse_timestamp fromiso (created_field post_data) = None \<longrightarrow> post_created_at p = now)"
proof -
  let ?sel = "py_or (created_field post_data) (raw_indexedAt post_data)"
  from assms have ca: "post_created_at p =
      (case parse_timestamp fromiso ?sel of None \<Rightarrow> now | Some t \<Rightarrow> t)"
    by (auto simp add: normalize_post_def Let_def get_default_def created_field_def
          split: if_splits option.splits)
  have parsed: "truthy s" if "parse_timestamp fromiso s = Some t" for s t
    using that by (auto simp add: parse_timestamp_def split: if_splits)
  show ?thesis
    using ca parsed [of "created_field post_data"]
    by (auto simp add: py_or_def)
qed

theorem normalize_post_created_at_witness:
  "normalize_post ex_fromiso 7 (ex_raw ''at://p'' (Some ''2024-01-15T10:00:00Z'') None 0) \<noteq> None
   \<and> map_option post_created_at
       (normalize_post ex_fromiso 7 (ex_raw ''at://p'' (Some ''2024-01-15T10:00:00Z'') None 0))
      = Some 1705312800000000
   \<and> \<not> truthy (created_field (ex_raw ''at://p'' None (Some ''2024-01-15T10:00:00Z'') 0))
   \<and> map_option post_created_at
       (normalize_post ex_fromiso 7 (ex_raw ''at://p'' None (Some ''2024-01-15T10:00:00Z'') 0))
      = Some 1705312800000000
   \<and> map_option post_created_at
       (normalize_post ex_fromiso 7 (ex_raw ''at://p'' None None 0)) = Some 7
   \<and> truthy (created_field (ex_raw ''at://p'' (Some ''not-a-date'') None 0))
   \<and> map_option post_created_at
       (normalize_post ex_fromiso 7 (ex_raw ''at://p'' (Some ''not-a-date'') None 0)) = Some 7"
proof -
  have a: "\<exists>p. normalize_post ex_fromiso 7 (ex_raw ''at://p'' c i 0) = Some p" for c i
    by (simp add: normalize_post_def ex_raw_def get_default_def Let_def)
  have pt: "parse_timestamp ex_fromiso (Some ''2024-01-15T10:00:00Z'') = Some 1705312800000000"
    "parse_timestamp ex_fromiso (Some ''not-a-date'') = None"
    "parse_timestamp ex_fromiso None = None"
    by (simp_all add: parse_timestamp_def ex_fromiso_def endswith_Z_def)
  have cf: "created_field (ex_raw u c i l) = c" for u c i l
    by (simp add: created_field_def ex_raw_def)
  have ix: "raw_indexedAt (ex_raw u c i l) = i" for u c i l
    by (simp add: ex_raw_def)
  obtain p1 where p1: "normalize_post ex_fromiso 7 (ex_raw ''at://p'' (Some ''2024-01-15T10:00:00Z'') None 0) = Some p1"
    using a by blast
  obtain p2 where p2: "normalize_post ex_fromiso 7 (ex_raw ''at://p'' None (Some ''2024-01-15T10:00:00Z'') 0) = Some p2"
    using a by blast
  obtain p3 where p3: "normalize_post ex_fromiso 7 (ex_raw ''at://p'' None None 0) = Some p3"
    using a by blast
  obtain p4 where p4: "normalize_post ex_fromiso 7 (ex_raw ''at://p'' (Some ''not-a-date'') None 0) = Some p4"
    using a by blast
  show ?thesis
    using normalize_post_created_at [OF p1] normalize_post_created_at [OF p2]
      normalize_post_created_at [OF p3] normalize_post_created_at [OF p4]
    by (simp add: p1 p2 p3 p4 pt cf ix)
qed

text \<open>
  Claim C1: every REPLY edge of the thread traversal points from the replying post to the
  post it replies to. On the thread of \<open>at://x\<close>, which replies to \<open>at://parent\<close> and has
  the reply \<open>at://reply\<close>, the traversal emits the edge of the reply in that direction,
  and the edge of the parent chain from \<open>at://parent\<close> to \<open>at://x\<close>: from the post replied
  to, to the replying post.
\<close>

theorem thread_parent_edge_reversed:
  "map edge_key (snd (snd (normalize_thread_node ex_fromiso 7 ex_thread [] [] None 10 0)))
     = [(''at://parent'', ''at://x'', REPLY), (''at://reply'', ''at://x'', REPLY)]"
  by (simp add: ex_thread_def normalize_post_def ex_raw_def parse_timestamp_def ex_fromiso_def
        endswith_Z_def py_or_def get_default_def edge_key_def Let_def)

section \<open>Properties of seed-mode accumulation\<close>

lemma extract_quote_loop_edges:
  "extract_quote_loop fromiso now raws target ps es = (ps', es') \<Longrightarrow>
     \<exists>qs. ps' = ps @ qs \<and> es' = es @ map (quote_edge target) qs
          \<and> qs = List.map_filter (normalize_post fromiso now) raws"
proof (induction raws arbitrary: ps es)
  case Nil
  then show ?case by (simp add: List.map_filter_simps)
next
  case (Cons r raws)
  show ?case
  proof (cases "normalize_post fromiso now r")
    case None
    with Cons.prems Cons.IH [of ps es] show ?thesis
      by (simp add: List.map_filter_simps)
  next
    case (Some p)
    with Cons.prems Cons.IH [of "ps @ [p]" "es @ [quote_edge target p]"] show ?thesis
      by (simp add: List.map_filter_simps quote_edge_def)
  qed
qed

lemma extract_quote_edges_shape:
  "extract_quote_edges fromiso now raws target = (qposts, qedges) \<Longrightarrow>
     qposts = List.map_filter (normalize_post fromiso now) raws
     \<and> qedges = map (quote_edge target) qposts"
  using extract_quote_loop_edges [of fromiso now raws target "[]" "[]" qposts qedges]
  by (simp add: extract_quote_edges_def)

lemma insert_quote_posts_prefix:
  "\<exists>k\<le>length qs.
      insert_quote_posts qs acc cap = fold insert_post (take k qs) acc
      \<and> (\<forall>j<k. int (length (fold insert_post (take j qs) acc)) < cap)
      \<and> (k < length qs \<longrightarrow> cap \<le> int (length (insert_quote_posts qs acc cap)))"
proof (induction qs arbitrary: acc)
  case Nil
  show ?case by simp
next
  case (Cons q qs)
  show ?case
  proof (cases "int (length acc) \<ge> cap")
    case True
    then show ?thesis by (intro exI [of _ 0]) simp
  next
    case False
    then have step: "insert_quote_posts (q # qs) acc cap = insert_quote_posts qs (insert_post q acc) cap"
      by (simp add: insert_post_def)
    from Cons.IH [of "insert_post q acc"] obtain k where k:
      "k \<le> length qs"
      "insert_quote_posts qs (insert_post q acc) cap = fold insert_post (take k qs) (insert_post q acc)"
      "\<forall>j<k. int (length (fold insert_post (take j qs) (insert_post q acc))) < cap"
      "k < length qs \<longrightarrow> cap \<le> int (length (insert_quote_posts qs (insert_post q acc) cap))"
      by blast
    have below: "\<forall>j<Suc k. int (length (fold insert_post (take j (q # qs)) acc)) < cap"
    proof (intro allI impI)
      fix j assume "j < Suc k"
      show "int (length (fold insert_post (take j (q # qs)) acc)) < cap"
      proof (cases j)
        case 0
        with False show ?thesis by simp
      next
        case (Suc j')
        with \<open>j < Suc k\<close> k(3) show ?thesis by simp
      qed
    qed
    from k(1) k(2) k(4) below show ?thesis
      unfolding step by (intro exI [of _ "Suc k"]) simp
  qed
qed

lemma length_py_take: "0 \<le> n \<Longrightarrow> int (length (py_take n xs)) \<le> n"
  by (simp add: py_take_def)

lemma seed_mode_posts_bound:
  assumes "0 \<le> in_max_nodes inputs"
  shows "int (length (res_posts (fst (seed_mode inputs cfg w0)))) \<le> in_max_nodes inputs"
  using length_py_take [OF assms]
  by (auto simp add: seed_mode_def Let_def split: prod.split)

lemma normalize_ex_raw:
  "u \<noteq> [] \<Longrightarrow>
     normalize_post ex_fromiso 7 (ex_raw u (Some ''2024-01-15T10:00:00Z'') None l) = Some (ex_post u l)"
  by (simp add: normalize_post_def ex_raw_def ex_post_def parse_timestamp_def ex_fromiso_def
        endswith_Z_def py_or_def get_default_def Let_def)

lemma ex_fetch_thread:
  "fetch_thread ex_seed_inputs (new_client ex_seed_cfg ex_seed_world) ex_seed_world
     = (([(''at://x'', ex_post ''at://x'' 1), (''at://parent'', ex_post ''at://parent'' 0),
          (''at://reply'', ex_post ''at://reply'' 2)],
         [quote_edge ''at://x'' (ex_post ''at://parent'' 0)\<lparr>edge_type := REPLY\<rparr>,
          quote_edge ''at://x'' (ex_post ''at://reply'' 2)\<lparr>edge_type := REPLY\<rparr>]),
        (new_client ex_seed_cfg ex_seed_world)
          \<lparr>request_count := 1,
           stats := \<lparr>total_requests = 1, cache_hits = 0, cache_misses = 1, failed_requests = 0\<rparr>\<rparr>,
        ex_seed_world\<lparr>net_calls := 1\<rparr>)"
  by (simp add: fetch_thread_def get_post_thread_def get_def check_budget_def new_client_def
        ex_seed_cfg_def ex_seed_world_def ex_seed_inputs_def get_from_cache_def
        get_retry_loop.simps raise_for_status_def set_cache_def
        extract_thread_posts_and_edges_def ex_thread_def normalize_ex_raw edge_key_def
        dict_update_def quote_edge_def ex_post_def Let_def)

lemma ex_extract_quotes:
  "extract_quote_edges ex_fromiso 7 (resp_posts ex_quote_page) ''at://x''
     = ([ex_post ''at://reply'' 5, ex_post ''at://q'' 0],
        [quote_edge ''at://x'' (ex_post ''at://reply'' 5), quote_edge ''at://x'' (ex_post ''at://q'' 0)])"
  by (simp add: extract_quote_edges_def ex_quote_page_def normalize_ex_raw quote_edge_def)

lemma post_uri_ex_post: "post_uri (ex_post u l) = u"
  by (simp add: ex_post_def)

lemma ex_absorb:
  assumes "fromisoformat w = ex_fromiso" and "clock w = 7"
  shows "absorb_quote_page ex_seed_inputs w ex_quote_page acc es
     = (insert_quote_posts [ex_post ''at://reply'' 5, ex_post ''at://q'' 0] acc 10,
        es @ [quote_edge ''at://x'' (ex_post ''at://reply'' 5),
              quote_edge ''at://x'' (ex_post ''at://q'' 0)])"
  using assms by (simp add: absorb_quote_page_def ex_extract_quotes ex_seed_inputs_def)

lemma ex_quote_loop:
  "fst (fst (quote_loop ex_seed_inputs None 0
              [(''at://x'', ex_post ''at://x'' 1), (''at://parent'', ex_post ''at://parent'' 0),
               (''at://reply'', ex_post ''at://reply'' 2)]
              es
              ((new_client ex_seed_cfg ex_seed_world)
                 \<lparr>request_count := 1,
                  stats := \<lparr>total_requests = 1, cache_hits = 0, cache_misses = 1,
                            failed_requests = 0\<rparr>\<rparr>)
              (ex_seed_world\<lparr>net_calls := 1\<rparr>)))
     = [(''at://x'', ex_post ''at://x'' 1), (''at://parent'', ex_post ''at://parent'' 0),
        (''at://reply'', ex_post ''at://reply'' 5), (''at://q'', ex_post ''at://q'' 0)]"
proof -
  have g: "get_quotes
             ((new_client ex_seed_cfg ex_seed_world)
                 \<lparr>request_count := 1,
                  stats := \<lparr>total_requests = 1, cache_hits = 0, cache_misses = 1,
                            failed_requests = 0\<rparr>\<rparr>)
             (ex_seed_world\<lparr>net_calls := 1\<rparr>) ''at://x'' 50 None
           = (Inr ex_quote_page,
              (new_client ex_seed_cfg ex_seed_world)
                 \<lparr>request_count := 2,
                  stats := \<lparr>total_requests = 2, cache_hits = 0, cache_misses = 2,
                            failed_requests = 0\<rparr>\<rparr>,
              ex_seed_world\<lparr>net_calls := 2\<rparr>)"
    by (simp add: get_quotes_def get_def check_budget_def new_client_def
          ex_seed_cfg_def ex_seed_world_def get_from_cache_def
          get_retry_loop.simps raise_for_status_def set_cache_def Let_def)
  have w: "fromisoformat (ex_seed_world\<lparr>net_calls := 2\<rparr>) = ex_fromiso"
    "clock (ex_seed_world\<lparr>net_calls := 2\<rparr>) = 7"
    by (simp_all add: ex_seed_world_def)
  have c: "resp_cursor ex_quote_page = None" "in_seed_uri ex_seed_inputs = ''at://x''"
    "0 < in_max_quote_pages ex_seed_inputs"
    by (simp_all add: ex_quote_page_def ex_seed_inputs_def)
  show ?thesis
    by (subst quote_loop.simps) (simp add: g c ex_absorb [OF w] post_uri_ex_post del: One_nat_def)
qed

lemma seed_mode_posts:
  assumes "fetch_thread inputs (new_client cfg w0) w0 = ((P, E), C, W)"
    and "\<not> in_max_nodes inputs \<le> int (length P)"
  shows "res_posts (fst (seed_mode inputs cfg w0))
           = py_take (in_max_nodes inputs)
               (dict_values (fst (fst (quote_loop inputs None 0 P E C W))))"
  using assms by (simp add: seed_mode_def Let_def split: prod.split)

lemma dedup_posts_loop_acc:
  "dedup_posts_loop ps seen acc = acc @ dedup_posts_loop ps seen []"
proof (induction ps arbitrary: seen acc)
  case Nil
  show ?case by simp
next
  case (Cons p ps)
  show ?case
    using Cons.IH [of "insert (post_uri p) seen" "acc @ [p]"]
      Cons.IH [of "insert (post_uri p) seen" "[p]"] Cons.IH [of seen acc]
    by simp
qed

lemma dedup_posts_loop_firsts:
  "dedup_posts_loop ps seen [] = firsts_unseen post_uri seen ps"
proof (induction ps arbitrary: seen)
  case Nil
  show ?case by (simp add: firsts_unseen_Nil)
next
  case (Cons p ps)
  show ?case
    using Cons.IH [of seen] Cons.IH [of "insert (post_uri p) seen"]
      dedup_posts_loop_acc [of ps "insert (post_uri p) seen" "[p]"]
    by (simp add: firsts_unseen_Cons)
qed

lemma dedup_posts_first: "deduplicate_posts ps = first_occurrences post_uri ps"
  by (simp add: deduplicate_posts_def dedup_posts_loop_firsts first_occurrences_unseen)

lemma keys_dict_set_present: "k \<in> fst ` set d \<Longrightarrow> map fst (dict_set k v d) = map fst d"
  by (induction d) force+

lemma keys_dict_set_absent: "k \<notin> fst ` set d \<Longrightarrow> map fst (dict_set k v d) = map fst d @ [k]"
  by (induction d) auto

lemma keys_dict_set:
  "map fst (dict_set k v d) = (if k \<in> set (map fst d) then map fst d else map fst d @ [k])"
  by (simp add: keys_dict_set_present keys_dict_set_absent)

lemma firsts_unseen_drop_seen:
  "key k \<in> key ` set ks \<union> seen \<Longrightarrow>
     firsts_unseen key seen (ks @ k # us) = firsts_unseen key seen (ks @ us)"
proof (induction ks arbitrary: seen)
  case Nil
  then show ?case by (simp add: firsts_unseen_Cons)
next
  case (Cons a ks)
  from Cons.prems have "key k \<in> key ` set ks \<union> insert (key a) seen" by auto
  from Cons.IH [OF this] Cons.IH [of seen] Cons.prems show ?case
    by (auto simp add: firsts_unseen_Cons)
qed

lemma firsts_unseen_distinct:
  "distinct (map key ks) \<Longrightarrow> key ` set ks \<inter> seen = {} \<Longrightarrow> firsts_unseen key seen ks = ks"
proof (induction ks arbitrary: seen)
  case Nil
  show ?case by (simp add: firsts_unseen_Nil)
next
  case (Cons a ks)
  then show ?case by (simp add: firsts_unseen_Cons)
qed

lemma distinct_keys_dict_set: "distinct (map fst d) \<Longrightarrow> distinct (map fst (dict_set k v d))"
  by (simp add: keys_dict_set)

lemma fold_insert_post_keys:
  "distinct (map fst acc) \<Longrightarrow>
     map fst (fold insert_post qs acc) = first_occurrences id (map fst acc @ map post_uri qs)"
proof (induction qs arbitrary: acc)
  case Nil
  then show ?case by (simp add: first_occurrences_unseen firsts_unseen_distinct)
next
  case (Cons q qs)
  have d: "distinct (map fst (insert_post q acc))"
    using Cons.prems by (simp add: insert_post_def distinct_keys_dict_set)
  show ?case
  proof (cases "post_uri q \<in> set (map fst acc)")
    case True
    then have "map fst (insert_post q acc) = map fst acc"
      by (simp add: insert_post_def keys_dict_set)
    with Cons.IH [OF d] True show ?thesis
      using firsts_unseen_drop_seen [where key = "\<lambda>a. a" and k = "post_uri q"
          and ks = "map fst acc" and seen = "{}" and us = "map post_uri qs"]
      by (simp add: first_occurrences_unseen)
  next
    case False
    then have "map fst (insert_post q acc) = map fst acc @ [post_uri q]"
      by (simp add: insert_post_def keys_dict_set)
    with Cons.IH [OF d] show ?thesis by simp
  qed
qed

lemma find_snoc:
  "find P (xs @ [x]) = (case find P xs of Some y \<Rightarrow> Some y | None \<Rightarrow> if P x then Some x else None)"
  by (induction xs) auto

lemma fold_insert_post_values:
  "dict_get (fold insert_post qs acc) u
     = (case find (\<lambda>p. post_uri p = u) (rev qs) of Some p \<Rightarrow> Some p | None \<Rightarrow> dict_get acc u)"
proof (induction qs arbitrary: acc)
  case Nil
  show ?case by simp
next
  case (Cons q qs)
  show ?case
    using Cons.IH [of "insert_post q acc"]
    by (auto simp add: find_snoc insert_post_def dict_get_set split: option.splits)
qed

lemma normalize_thread_posts:
  "(normalize_thread_node fromiso now node posts edges parent_uri max_depth current_depth
      = (r, posts', edges')
    \<longrightarrow> posts' = fold insert_post (thread_posts fromiso now node max_depth current_depth) posts)"
  and
  "(normalize_replies fromiso now replies posts edges parent_uri max_depth current_depth
      = (posts', edges')
    \<longrightarrow> posts' = fold insert_post
                 (concat (map (\<lambda>reply_node. thread_posts fromiso now reply_node max_depth current_depth)
                            replies)) posts)"
proof (induction fromiso now node posts edges parent_uri max_depth current_depth
         and fromiso now replies posts edges parent_uri max_depth current_depth
       arbitrary: r posts' edges' and posts' edges'
       rule: normalize_thread_node_normalize_replies.induct)
  case (1 fromiso now node posts edges parent_uri max_depth current_depth)
  show ?case
  proof (cases "\<not> max_depth \<le> current_depth
                \<and> node_type node = ''app.bsky.feed.defs#threadViewPost''")
    case False
    then show ?thesis
      by (subst normalize_thread_node.simps, subst thread_posts.simps) auto
  next
    case True
    then have depth: "\<not> max_depth \<le> current_depth"
      and type: "node_type node = ''app.bsky.feed.defs#threadViewPost''" by simp_all
    show ?thesis
    proof (cases "node_post node")
      case None
      with True show ?thesis
        by (subst normalize_thread_node.simps, subst thread_posts.simps) auto
    next
      case (Some post_data)
      show ?thesis
      proof (cases "normalize_post fromiso now post_data")
        case None
        with True Some show ?thesis
          by (subst normalize_thread_node.simps, subst thread_posts.simps) auto
      next
        case post: (Some post)
        define posts1 where "posts1 = dict_set (post_uri post) post posts"
        define edges1 where "edges1 =
          (if truthy parent_uri then
             (let edge = \<lparr>src_uri = post_uri post, dst_uri = the parent_uri,
                          edge_type = REPLY,
                          edge_created_at = Some (post_created_at post)\<rparr>
              in if edge_key edge \<notin> edge_key ` set edges
                 then edges @ [edge] else edges)
           else edges)"
        define up where "up =
          (case node_parent node of
             None \<Rightarrow> (posts1, edges1)
           | Some parent_node \<Rightarrow>
               snd (normalize_thread_node fromiso now parent_node posts1 edges1
                      (Some (post_uri post)) max_depth (current_depth + 1)))"
        obtain posts2 edges2 where up_eq: "up = (posts2, edges2)" by (cases up)
        obtain posts3 edges3 where down:
          "normalize_replies fromiso now (node_replies node) posts2 edges2
             (Some (post_uri post)) max_depth (current_depth + 1) = (posts3, edges3)"
          by (cases "normalize_replies fromiso now (node_replies node) posts2 edges2
             (Some (post_uri post)) max_depth (current_depth + 1)")
        have p2: "posts2 = fold insert_post
                    (case node_parent node of
                       None \<Rightarrow> []
                     | Some parent_node \<Rightarrow>
                         thread_posts fromiso now parent_node max_depth (current_depth + 1))
                    posts1"
        proof (cases "node_parent node")
          case None
          with up_eq show ?thesis by (simp add: up_def)
        next
          case (Some parent_node)
          obtain r2 where "normalize_thread_node fromiso now parent_node posts1 edges1
                      (Some (post_uri post)) max_depth (current_depth + 1) = (r2, posts2, edges2)"
            using up_eq Some unfolding up_def
            by (cases "normalize_thread_node fromiso now parent_node posts1 edges1
                      (Some (post_uri post)) max_depth (current_depth + 1)") simp
          with "1.IH"(1) [OF depth type \<open>node_post node = Some post_data\<close> post
              posts1_def edges1_def Some]
          show ?thesis using Some by simp
        qed
        have p3: "posts3 = fold insert_post
                    (concat (map (\<lambda>reply_node.
                        thread_posts fromiso now reply_node max_depth (current_depth + 1))
                      (node_replies node))) posts2"
          using "1.IH"(2) [OF depth type \<open>node_post node = Some post_data\<close> post
              posts1_def edges1_def up_def up_eq [symmetric]] down
          by simp
        have res: "normalize_thread_node fromiso now node posts edges parent_uri max_depth
                     current_depth = (Some (post_uri post), posts3, edges3)"
          using depth type Some post up_eq down
          unfolding up_def posts1_def edges1_def
          by (subst normalize_thread_node.simps) (simp add: Let_def)
        have tp: "thread_posts fromiso now node max_depth current_depth
                    = post
                      # (case node_parent node of
                           None \<Rightarrow> []
                         | Some parent_node \<Rightarrow>
                             thread_posts fromiso now parent_node max_depth (current_depth + 1))
                      @ concat (map (\<lambda>reply_node.
                            thread_posts fromiso now reply_node max_depth (current_depth + 1))
                          (node_replies node))"
          using depth type Some post by (subst thread_posts.simps) simp
        show ?thesis
          unfolding res tp using p2 p3 by (auto simp add: posts1_def insert_post_def [of post])
      qed
    qed
  qed
next
  case (2 fromiso now posts edges parent_uri max_depth current_depth)
  show ?case by simp
next
  case (3 fromiso now reply_node replies posts edges parent_uri max_depth current_depth)
  obtain r1 posts1 edges1 where first:
    "normalize_thread_node fromiso now reply_node posts edges parent_uri max_depth current_depth
       = (r1, posts1, edges1)"
    by (cases "normalize_thread_node fromiso now reply_node posts edges parent_uri max_depth
                 current_depth")
  from "3.IH"(1) first have p1:
    "posts1 = fold insert_post (thread_posts fromiso now reply_node max_depth current_depth) posts"
    by simp
  show ?case
  proof
    assume "normalize_replies fromiso now (reply_node # replies) posts edges parent_uri max_depth
              current_depth = (posts', edges')"
    with first have rest:
      "normalize_replies fromiso now replies posts1 edges1 parent_uri max_depth current_depth
         = (posts', edges')"
      by simp
    from "3.IH"(2) [of "(posts1, edges1)" posts1 edges1 posts' edges'] first rest
    have "posts' = fold insert_post
                     (concat (map (\<lambda>reply_node.
                         thread_posts fromiso now reply_node max_depth current_depth) replies))
                     posts1"
      by simp
    with p1 show "posts' = fold insert_post
                 (concat (map (\<lambda>reply_node. thread_posts fromiso now reply_node max_depth current_depth)
                            (reply_node # replies))) posts"
      by simp
  qed
qed

lemma distinct_fold_insert_post:
  "distinct (map fst acc) \<Longrightarrow> distinct (map fst (fold insert_post qs acc))"
  by (induction qs arbitrary: acc) (simp_all add: insert_post_def distinct_keys_dict_set)

lemma dict_set_absent: "k \<notin> fst ` set d \<Longrightarrow> dict_set k v d = d @ [(k, v)]"
  by (induction d) auto

lemma dict_update_fresh:
  "distinct (map fst other) \<Longrightarrow> fst ` set other \<inter> fst ` set d = {} \<Longrightarrow>
     dict_update d other = d @ other"
proof (induction other arbitrary: d)
  case Nil
  show ?case by (simp add: dict_update_def)
next
  case (Cons kv other)
  obtain k v where kv: "kv = (k, v)" by (cases kv)
  from Cons.prems kv have fresh: "k \<notin> fst ` set d" by auto
  from Cons.prems kv have "distinct (map fst other)"
    and "fst ` set other \<inter> fst ` set (d @ [(k, v)]) = {}" by auto
  from Cons.IH [OF this] show ?case
    by (simp add: dict_update_def kv dict_set_absent [OF fresh])
qed

lemma fetch_thread_posts:
  "fst (fst (fetch_thread inputs (new_client cfg w0) w0))
     = fold insert_post (seed_thread_posts inputs cfg w0) []"
proof (cases "get_post_thread (new_client cfg w0) w0 (in_seed_uri inputs) (in_max_depth inputs) 3")
  case (fields res c w)
  show ?thesis
  proof (cases res)
    case (Inl e)
    with fields show ?thesis by (simp add: fetch_thread_def seed_thread_posts_def)
  next
    case (Inr thread_response)
    show ?thesis
    proof (cases "resp_thread thread_response")
      case None
      with fields Inr show ?thesis
        by (simp add: fetch_thread_def seed_thread_posts_def extract_thread_posts_and_edges_def
              dict_update_def)
    next
      case (Some thread)
      obtain r posts' edges' where run:
        "normalize_thread_node (fromisoformat w) (clock w) thread [] [] None (in_max_depth inputs) 0
           = (r, posts', edges')"
        by (cases "normalize_thread_node (fromisoformat w) (clock w) thread [] [] None
                     (in_max_depth inputs) 0")
      from normalize_thread_posts(1) [of "fromisoformat w" "clock w" thread "[]" "[]" None
          "in_max_depth inputs" 0 r posts' edges'] run
      have p: "posts' = fold insert_post
                 (thread_posts (fromisoformat w) (clock w) thread (in_max_depth inputs) 0) []"
        by simp
      have "distinct (map fst posts')"
        unfolding p by (rule distinct_fold_insert_post) simp
      then have "dict_update [] posts' = posts'"
        using dict_update_fresh [of posts' "[]"] by simp
      with fields Inr Some run p show ?thesis
        by (simp add: fetch_thread_def seed_thread_posts_def extract_thread_posts_and_edges_def)
    qed
  qed
qed

lemma quote_loop_stop:
  "\<not> n < in_max_quote_pages inputs \<Longrightarrow>
     quote_loop inputs cursor n all_posts all_edges c w = ((all_posts, all_edges), c, w)"
  by (subst quote_loop.simps) simp

lemma quote_loop_fail:
  "n < in_max_quote_pages inputs \<Longrightarrow>
   get_quotes c w (in_seed_uri inputs) 50 cursor = (Inl e, c', w') \<Longrightarrow>
     quote_loop inputs cursor n all_posts all_edges c w = ((all_posts, all_edges), c', w')"
  by (subst quote_loop.simps) simp

lemma quote_loop_page:
  assumes "n < in_max_quote_pages inputs"
    and "get_quotes c w (in_seed_uri inputs) 50 cursor = (Inr quote_response, c', w')"
    and "extract_quote_edges (fromisoformat w') (clock w') (resp_posts quote_response)
           (in_seed_uri inputs) = (quote_posts, quote_edges)"
  shows "quote_loop inputs cursor n all_posts all_edges c w
     = (if \<not> truthy (resp_cursor quote_response) \<or> get_remaining_budget c' < 10
           \<or> in_max_nodes inputs
               \<le> int (length (insert_quote_posts quote_posts all_posts (in_max_nodes inputs)))
        then ((insert_quote_posts quote_posts all_posts (in_max_nodes inputs),
               all_edges @ quote_edges), c', w')
        else quote_loop inputs (resp_cursor quote_response) (n + 1)
               (insert_quote_posts quote_posts all_posts (in_max_nodes inputs))
               (all_edges @ quote_edges) c' w')"
  using assms
  by (subst quote_loop.simps) (simp add: absorb_quote_page_def Let_def)

lemma quote_loop_grows:
  "quote_loop inputs cursor n all_posts all_edges c w = ((final_posts, final_edges), c2, w2) \<Longrightarrow>
     (\<exists>inserted. final_posts = fold insert_post inserted all_posts)
     \<and> (\<exists>more. final_edges = all_edges @ more)"
proof (induction "nat (in_max_quote_pages inputs - n)" arbitrary: cursor n all_posts all_edges c w
         rule: less_induct)
  case less
  show ?case
  proof (cases "n < in_max_quote_pages inputs")
    case False
    from less.prems quote_loop_stop [OF False] have "final_posts = all_posts" "final_edges = all_edges"
      by simp_all
    then have "final_posts = fold insert_post [] all_posts" "final_edges = all_edges @ []"
      by simp_all
    then show ?thesis by blast
  next
    case True
    obtain res c' w' where g: "get_quotes c w (in_seed_uri inputs) 50 cursor = (res, c', w')"
      by (cases "get_quotes c w (in_seed_uri inputs) 50 cursor")
    show ?thesis
    proof (cases res)
      case (Inl e)
      from less.prems quote_loop_fail [OF True g [unfolded Inl]]
      have "final_posts = fold insert_post [] all_posts" "final_edges = all_edges @ []"
        by simp_all
      then show ?thesis by blast
    next
      case (Inr quote_response)
      obtain quote_posts quote_edges where ex:
        "extract_quote_edges (fromisoformat w') (clock w') (resp_posts quote_response)
           (in_seed_uri inputs) = (quote_posts, quote_edges)"
        by (cases "extract_quote_edges (fromisoformat w') (clock w') (resp_posts quote_response)
           (in_seed_uri inputs)")
      let ?A = "insert_quote_posts quote_posts all_posts (in_max_nodes inputs)"
      let ?E = "all_edges @ quote_edges"
      from insert_quote_posts_prefix [of quote_posts all_posts "in_max_nodes inputs"]
      obtain k where k: "?A = fold insert_post (take k quote_posts) all_posts" by blast
      note step = quote_loop_page [OF True g [unfolded Inr] ex, of all_posts all_edges]
      show ?thesis
      proof (cases "\<not> truthy (resp_cursor quote_response) \<or> get_remaining_budget c' < 10
           \<or> in_max_nodes inputs \<le> int (length ?A)")
        case True
        with step less.prems have "final_posts = ?A" "final_edges = ?E" by simp_all
        with k show ?thesis by auto
      next
        case False
        with step less.prems have rec:
          "quote_loop inputs (resp_cursor quote_response) (n + 1) ?A ?E c' w'
             = ((final_posts, final_edges), c2, w2)" by simp
        have "nat (in_max_quote_pages inputs - (n + 1)) < nat (in_max_quote_pages inputs - n)"
          using \<open>n < in_max_quote_pages inputs\<close> by simp
        from less.hyps [OF this rec] obtain inserted more where
          "final_posts = fold insert_post inserted ?A" "final_edges = ?E @ more" by blast
        then have "final_posts = fold insert_post (take k quote_posts @ inserted) all_posts"
          "final_edges = all_edges @ (quote_edges @ more)"
          by (simp_all add: k)
        then show ?thesis by blast
      qed
    qed
  qed
qed

lemma seed_mode_after_quotes:
  assumes "fetch_thread inputs (new_client cfg w0) w0 = ((thread_dict, thread_edges), c1, w1)"
    and "\<not> in_max_nodes inputs \<le> int (length thread_dict)"
    and "quote_loop inputs None 0 thread_dict thread_edges c1 w1
           = ((final_posts, final_edges), c2, w2)"
  shows "seed_mode inputs cfg w0
           = (\<lparr>res_posts = py_take (in_max_nodes inputs) (dict_values final_posts),
               res_edges = deduplicate_edges final_edges,
               res_total_requests = total_requests (stats c2),
               res_cache_hits = cache_hits (stats c2),
               res_cache_misses = cache_misses (stats c2)\<rparr>, w2)"
  using assms by (simp add: seed_mode_def Let_def)

lemma seed_mode_at_thread_cap:
  assumes "fetch_thread inputs (new_client cfg w0) w0 = ((thread_dict, thread_edges), c1, w1)"
    and "in_max_nodes inputs \<le> int (length thread_dict)"
  shows "seed_mode inputs cfg w0
           = (\<lparr>res_posts = py_take (in_max_nodes inputs) (dict_values thread_dict),
               res_edges = deduplicate_edges thread_edges,
               res_total_requests = total_requests (stats c1),
               res_cache_hits = cache_hits (stats c1),
               res_cache_misses = cache_misses (stats c1)\<rparr>, w1)"
  using assms by (simp add: seed_mode_def Let_def)

lemma ex_capped_fetch_thread:
  "fetch_thread ex_capped_inputs (new_client ex_seed_cfg ex_capped_world) ex_capped_world
     = ((ex_thread_dict, ex_thread_edges), ex_client_after ex_capped_world 1,
        ex_capped_world\<lparr>net_calls := 1\<rparr>)"
  by (simp add: fetch_thread_def get_post_thread_def get_def check_budget_def new_client_def
        ex_seed_cfg_def ex_capped_world_def ex_capped_inputs_def get_from_cache_def
        get_retry_loop.simps raise_for_status_def set_cache_def
        extract_thread_posts_and_edges_def ex_thread_def normalize_ex_raw edge_key_def
        dict_update_def quote_edge_def ex_post_def ex_client_after_def ex_thread_dict_def
        ex_thread_edges_def Let_def)

lemma ex_capped_get_quotes:
  "get_quotes (ex_client_after ex_capped_world 1) (ex_capped_world\<lparr>net_calls := 1\<rparr>)
       ''at://x'' 50 None
     = (Inr ex_quote_page_more, ex_client_after ex_capped_world 2,
        ex_capped_world\<lparr>net_calls := 2\<rparr>)"
  by (simp add: get_quotes_def get_def check_budget_def new_client_def ex_client_after_def
        ex_seed_cfg_def ex_capped_world_def get_from_cache_def
        get_retry_loop.simps raise_for_status_def set_cache_def Let_def)

lemma ex_capped_extract:
  "extract_quote_edges ex_fromiso 7 (resp_posts ex_quote_page_more) ''at://x''
     = ([ex_post ''at://reply'' 5, ex_post ''at://q'' 0, ex_post ''at://q2'' 0],
        [quote_edge ''at://x'' (ex_post ''at://reply'' 5), quote_edge ''at://x'' (ex_post ''at://q'' 0),
         quote_edge ''at://x'' (ex_post ''at://q2'' 0)])"
  by (simp add: extract_quote_edges_def ex_quote_page_more_def normalize_ex_raw quote_edge_def)

lemma ex_capped_quote_loop:
  "quote_loop ex_capped_inputs None 0 ex_thread_dict ex_thread_edges
       (ex_client_after ex_capped_world 1) (ex_capped_world\<lparr>net_calls := 1\<rparr>)
     = (([(''at://x'', ex_post ''at://x'' 1), (''at://parent'', ex_post ''at://parent'' 0),
          (''at://reply'', ex_post ''at://reply'' 5), (''at://q'', ex_post ''at://q'' 0)],
         ex_thread_edges
         @ [quote_edge ''at://x'' (ex_post ''at://reply'' 5),
            quote_edge ''at://x'' (ex_post ''at://q'' 0),
            quote_edge ''at://x'' (ex_post ''at://q2'' 0)]),
        ex_client_after ex_capped_world 2, ex_capped_world\<lparr>net_calls := 2\<rparr>)"
proof -
  have i: "0 < in_max_quote_pages ex_capped_inputs" "in_seed_uri ex_capped_inputs = ''at://x''"
    "in_max_nodes ex_capped_inputs = 4"
    by (simp_all add: ex_capped_inputs_def)
  have w: "fromisoformat (ex_capped_world\<lparr>net_calls := 2\<rparr>) = ex_fromiso"
    "clock (ex_capped_world\<lparr>net_calls := 2\<rparr>) = 7"
    by (simp_all add: ex_capped_world_def)
  show ?thesis
    using quote_loop_page [OF i(1) ex_capped_get_quotes [folded i(2)]
        ex_capped_extract [folded i(2) w], of ex_thread_dict ex_thread_edges]
    by (simp add: i(2) i(3) ex_thread_dict_def post_uri_ex_post)
qed

lemma fold_insert_post_last:
  "dict_get (fold insert_post seen []) u = find (\<lambda>p. post_uri p = u) (rev seen)"
  using fold_insert_post_values [of seen "[]" u]
  by (simp add: dict_get_def split: option.splits)

lemma seed_mode_posts_inserted:
  "\<exists>inserted. res_posts (fst (seed_mode inputs cfg w0))
     = py_take (in_max_nodes inputs)
         (dict_values (fold insert_post (seed_thread_posts inputs cfg w0 @ inserted) []))"
proof -
  obtain td te c1 w1 where ft:
    "fetch_thread inputs (new_client cfg w0) w0 = ((td, te), c1, w1)"
    by (metis prod_cases3 surj_pair)
  from fetch_thread_posts [of inputs cfg w0] ft
  have td: "td = fold insert_post (seed_thread_posts inputs cfg w0) []" by simp
  show ?thesis
  proof (cases "in_max_nodes inputs \<le> int (length td)")
    case True
    from seed_mode_at_thread_cap [OF ft True]
    have "res_posts (fst (seed_mode inputs cfg w0))
            = py_take (in_max_nodes inputs)
                (dict_values (fold insert_post (seed_thread_posts inputs cfg w0 @ []) []))"
      by (simp add: td)
    then show ?thesis by blast
  next
    case False
    obtain fp fe c2 w2 where ql:
      "quote_loop inputs None 0 td te c1 w1 = ((fp, fe), c2, w2)"
      by (metis prod_cases3 surj_pair)
    from quote_loop_grows [OF ql] obtain inserted where "fp = fold insert_post inserted td"
      by blast
    with seed_mode_after_quotes [OF ft False ql]
    have "res_posts (fst (seed_mode inputs cfg w0))
            = py_take (in_max_nodes inputs)
                (dict_values (fold insert_post (seed_thread_posts inputs cfg w0 @ inserted) []))"
      by (simp add: td)
    then show ?thesis by blast
  qed
qed

lemma ex_normalize_thread:
  "normalize_thread_node ex_fromiso 7 ex_thread [] [] None 3 0
     = (Some ''at://x'', ex_thread_dict, ex_thread_edges)"
  by (simp add: ex_thread_def normalize_ex_raw edge_key_def quote_edge_def ex_post_def
        ex_thread_dict_def ex_thread_edges_def Let_def)

text \<open>
  Claim C7: in the quote expansion of seed mode, whenever the loop fetches a page, the
  page's quote posts are inserted in order, each only while the accumulator holds fewer
  than \<open>max_nodes\<close> posts, so that a prefix of the page is absorbed and the cap is reached
  whenever a post is left out; all QUOTE edges of the page, one per quote post, are
  appended whatever the cap, and stay in the edge list the loop returns; the loop goes on
  to the next page only with a cursor, enough budget and the cap not reached. Seed mode
  returns the posts the loop leaves, cut to \<open>max_nodes\<close> entries, and its edges
  deduplicated; the returned post list has at most \<open>max_nodes\<close> entries.
\<close>

theorem quote_expansion_absorbs_pages:
  "(n < in_max_quote_pages inputs
     \<and> get_quotes c w (in_seed_uri inputs) 50 cursor = (Inr quote_response, c', w')
     \<and> extract_quote_edges (fromisoformat w') (clock w') (resp_posts quote_response)
           (in_seed_uri inputs) = (quote_posts, quote_edges)
    \<longrightarrow> (\<exists>k\<le>length quote_posts.
           (\<forall>j<k. int (length (fold insert_post (take j quote_posts) all_posts))
                     < in_max_nodes inputs)
         \<and> (k < length quote_posts \<longrightarrow>
               in_max_nodes inputs
                 \<le> int (length (fold insert_post (take k quote_posts) all_posts)))
         \<and> quote_edges = map (quote_edge (in_seed_uri inputs)) quote_posts
         \<and> quote_loop inputs cursor n all_posts all_edges c w
             = (if \<not> truthy (resp_cursor quote_response) \<or> get_remaining_budget c' < 10
                   \<or> in_max_nodes inputs
                       \<le> int (length (fold insert_post (take k quote_posts) all_posts))
                then ((fold insert_post (take k quote_posts) all_posts,
                       all_edges @ quote_edges), c', w')
                else quote_loop inputs (resp_cursor quote_response) (n + 1)
                       (fold insert_post (take k quote_posts) all_posts)
                       (all_edges @ quote_edges) c' w')
         \<and> (\<exists>more. snd (fst (quote_loop inputs cursor n all_posts all_edges c w))
                      = all_edges @ quote_edges @ more)))
   \<and> (fetch_thread inputs (new_client cfg w0) w0 = ((thread_dict, thread_edges), c1, w1)
       \<and> int (length thread_dict) < in_max_nodes inputs
       \<and> quote_loop inputs None 0 thread_dict thread_edges c1 w1
           = ((final_posts, final_edges), c2, w2)
      \<longrightarrow> res_posts (fst (seed_mode inputs cfg w0))
            = take (nat (in_max_nodes inputs)) (dict_values final_posts)
        \<and> res_edges (fst (seed_mode inputs cfg w0)) = deduplicate_edges final_edges)
   \<and> (0 \<le> in_max_nodes inputs \<longrightarrow>
        int (length (res_posts (fst (seed_mode inputs cfg w0)))) \<le> in_max_nodes inputs)"
proof (intro conjI impI)
  assume page: "n < in_max_quote_pages inputs
     \<and> get_quotes c w (in_seed_uri inputs) 50 cursor = (Inr quote_response, c', w')
     \<and> extract_quote_edges (fromisoformat w') (clock w') (resp_posts quote_response)
           (in_seed_uri inputs) = (quote_posts, quote_edges)"
  then have more: "n < in_max_quote_pages inputs"
    and g: "get_quotes c w (in_seed_uri inputs) 50 cursor = (Inr quote_response, c', w')"
    and ex: "extract_quote_edges (fromisoformat w') (clock w') (resp_posts quote_response)
           (in_seed_uri inputs) = (quote_posts, quote_edges)"
    by simp_all
  let ?A = "insert_quote_posts quote_posts all_posts (in_max_nodes inputs)"
  from insert_quote_posts_prefix [of quote_posts all_posts "in_max_nodes inputs"]
  obtain k where k: "k \<le> length quote_posts"
    "?A = fold insert_post (take k quote_posts) all_posts"
    "\<forall>j<k. int (length (fold insert_post (take j quote_posts) all_posts)) < in_max_nodes inputs"
    "k < length quote_posts \<longrightarrow> in_max_nodes inputs \<le> int (length ?A)"
    by blast
  note step = quote_loop_page [OF more g ex, of all_posts all_edges, unfolded k(2)]
  have shape: "quote_edges = map (quote_edge (in_seed_uri inputs)) quote_posts"
    using extract_quote_edges_shape [OF ex] by simp
  have kept: "\<exists>more. snd (fst (quote_loop inputs cursor n all_posts all_edges c w))
                      = all_edges @ quote_edges @ more"
  proof (cases "\<not> truthy (resp_cursor quote_response) \<or> get_remaining_budget c' < 10
                   \<or> in_max_nodes inputs
                       \<le> int (length (fold insert_post (take k quote_posts) all_posts))")
    case True
    with step have "snd (fst (quote_loop inputs cursor n all_posts all_edges c w))
                      = all_edges @ quote_edges @ []" by simp
    then show ?thesis by blast
  next
    case False
    obtain fp fe fc fw where rest:
      "quote_loop inputs (resp_cursor quote_response) (n + 1)
         (fold insert_post (take k quote_posts) all_posts) (all_edges @ quote_edges) c' w'
       = ((fp, fe), fc, fw)"
      by (metis prod_cases3 surj_pair)
    from quote_loop_grows [OF rest] obtain more where "fe = (all_edges @ quote_edges) @ more"
      by blast
    with step False rest
    have "snd (fst (quote_loop inputs cursor n all_posts all_edges c w))
            = all_edges @ quote_edges @ more" by simp
    then show ?thesis by blast
  qed
  from k(1) k(3) k(4) [unfolded k(2)] shape step kept
  show "\<exists>k\<le>length quote_posts.
           (\<forall>j<k. int (length (fold insert_post (take j quote_posts) all_posts))
                     < in_max_nodes inputs)
         \<and> (k < length quote_posts \<longrightarrow>
               in_max_nodes inputs
                 \<le> int (length (fold insert_post (take k quote_posts) all_posts)))
         \<and> quote_edges = map (quote_edge (in_seed_uri inputs)) quote_posts
         \<and> quote_loop inputs cursor n all_posts all_edges c w
             = (if \<not> truthy (resp_cursor quote_response) \<or> get_remaining_budget c' < 10
                   \<or> in_max_nodes inputs
                       \<le> int (length (fold insert_post (take k quote_posts) all_posts))
                then ((fold insert_post (take k quote_posts) all_posts,
                       all_edges @ quote_edges), c', w')
                else quote_loop inputs (resp_cursor quote_response) (n + 1)
                       (fold insert_post (take k quote_posts) all_posts)
                       (all_edges @ quote_edges) c' w')
         \<and> (\<exists>more. snd (fst (quote_loop inputs cursor n all_posts all_edges c w))
                      = all_edges @ quote_edges @ more)"
    by blast
next
  assume run: "fetch_thread inputs (new_client cfg w0) w0 = ((thread_dict, thread_edges), c1, w1)
       \<and> int (length thread_dict) < in_max_nodes inputs
       \<and> quote_loop inputs None 0 thread_dict thread_edges c1 w1
           = ((final_posts, final_edges), c2, w2)"
  then have below: "\<not> in_max_nodes inputs \<le> int (length thread_dict)" by simp
  from run have pos: "0 \<le> in_max_nodes inputs" by linarith
  from run seed_mode_after_quotes [of inputs cfg w0 thread_dict thread_edges c1 w1
      final_posts final_edges c2 w2] below
  have res: "seed_mode inputs cfg w0
           = (\<lparr>res_posts = py_take (in_max_nodes inputs) (dict_values final_posts),
               res_edges = deduplicate_edges final_edges,
               res_total_requests = total_requests (stats c2),
               res_cache_hits = cache_hits (stats c2),
               res_cache_misses = cache_misses (stats c2)\<rparr>, w2)"
    by simp
  from res pos show "res_posts (fst (seed_mode inputs cfg w0))
            = take (nat (in_max_nodes inputs)) (dict_values final_posts)"
    by (simp add: py_take_def)
  from res show "res_edges (fst (seed_mode inputs cfg w0)) = deduplicate_edges final_edges"
    by simp
next
  assume "0 \<le> in_max_nodes inputs"
  then show "int (length (res_posts (fst (seed_mode inputs cfg w0)))) \<le> in_max_nodes inputs"
    by (rule seed_mode_posts_bound)
qed

theorem quote_expansion_absorbs_pages_witness:
  "0 < in_max_quote_pages ex_capped_inputs
   \<and> get_quotes (ex_client_after ex_capped_world 1) (ex_capped_world\<lparr>net_calls := 1\<rparr>)
         (in_seed_uri ex_capped_inputs) 50 None
       = (Inr ex_quote_page_more, ex_client_after ex_capped_world 2,
          ex_capped_world\<lparr>net_calls := 2\<rparr>)
   \<and> extract_quote_edges (fromisoformat (ex_capped_world\<lparr>net_calls := 2\<rparr>))
         (clock (ex_capped_world\<lparr>net_calls := 2\<rparr>)) (resp_posts ex_quote_page_more)
         (in_seed_uri ex_capped_inputs)
       = ([ex_post ''at://reply'' 5, ex_post ''at://q'' 0, ex_post ''at://q2'' 0],
          [quote_edge ''at://x'' (ex_post ''at://reply'' 5),
           quote_edge ''at://x'' (ex_post ''at://q'' 0),
           quote_edge ''at://x'' (ex_post ''at://q2'' 0)])
   \<and> fetch_thread ex_capped_inputs (new_client ex_seed_cfg ex_capped_world) ex_capped_world
       = ((ex_thread_dict, ex_thread_edges), ex_client_after ex_capped_world 1,
          ex_capped_world\<lparr>net_calls := 1\<rparr>)
   \<and> int (length ex_thread_dict) < in_max_nodes ex_capped_inputs
   \<and> quote_loop ex_capped_inputs None 0 ex_thread_dict ex_thread_edges
         (ex_client_after ex_capped_world 1) (ex_capped_world\<lparr>net_calls := 1\<rparr>)
       = (([(''at://x'', ex_post ''at://x'' 1), (''at://parent'', ex_post ''at://parent'' 0),
            (''at://reply'', ex_post ''at://reply'' 5), (''at://q'', ex_post ''at://q'' 0)],
           ex_thread_edges
           @ [quote_edge ''at://x'' (ex_post ''at://reply'' 5),
              quote_edge ''at://x'' (ex_post ''at://q'' 0),
              quote_edge ''at://x'' (ex_post ''at://q2'' 0)]),
          ex_client_after ex_capped_world 2, ex_capped_world\<lparr>net_calls := 2\<rparr>)
   \<and> 0 \<le> in_max_nodes ex_capped_inputs
   \<and> map post_uri (res_posts (fst (seed_mode ex_capped_inputs ex_seed_cfg ex_capped_world)))
       = [''at://x'', ''at://parent'', ''at://reply'', ''at://q'']
   \<and> map edge_key (res_edges (fst (seed_mode ex_capped_inputs ex_seed_cfg ex_capped_world)))
       = [(''at://parent'', ''at://x'', REPLY), (''at://reply'', ''at://x'', REPLY),
          (''at://reply'', ''at://x'', QUOTE), (''at://q'', ''at://x'', QUOTE),
          (''at://q2'', ''at://x'', QUOTE)]
   \<and> int (length (res_posts (fst (seed_mode ex_capped_inputs ex_seed_cfg ex_capped_world)))) \<le> 4"
proof -
  have i: "0 < in_max_quote_pages ex_capped_inputs" "in_seed_uri ex_capped_inputs = ''at://x''"
    "in_max_nodes ex_capped_inputs = 4"
    by (simp_all add: ex_capped_inputs_def)
  have w: "fromisoformat (ex_capped_world\<lparr>net_calls := 2\<rparr>) = ex_fromiso"
    "clock (ex_capped_world\<lparr>net_calls := 2\<rparr>) = 7"
    by (simp_all add: ex_capped_world_def)
  note g = ex_capped_get_quotes [folded i(2)]
  have ex: "extract_quote_edges (fromisoformat (ex_capped_world\<lparr>net_calls := 2\<rparr>))
         (clock (ex_capped_world\<lparr>net_calls := 2\<rparr>)) (resp_posts ex_quote_page_more)
         (in_seed_uri ex_capped_inputs)
       = ([ex_post ''at://reply'' 5, ex_post ''at://q'' 0, ex_post ''at://q2'' 0],
          [quote_edge ''at://x'' (ex_post ''at://reply'' 5),
           quote_edge ''at://x'' (ex_post ''at://q'' 0),
           quote_edge ''at://x'' (ex_post ''at://q2'' 0)])"
    by (simp add: i(2) w ex_capped_extract)
  have below: "int (length ex_thread_dict) < in_max_nodes ex_capped_inputs"
    by (simp add: i(3) ex_thread_dict_def)
  have pos: "0 \<le> in_max_nodes ex_capped_inputs" by (simp add: i(3))
  note inst = quote_expansion_absorbs_pages
    [where inputs = ex_capped_inputs and n = 0 and cursor = None
       and c = "ex_client_after ex_capped_world 1" and w = "ex_capped_world\<lparr>net_calls := 1\<rparr>"
       and quote_response = ex_quote_page_more
       and c' = "ex_client_after ex_capped_world 2" and w' = "ex_capped_world\<lparr>net_calls := 2\<rparr>"
       and quote_posts = "[ex_post ''at://reply'' 5, ex_post ''at://q'' 0, ex_post ''at://q2'' 0]"
       and quote_edges = "[quote_edge ''at://x'' (ex_post ''at://reply'' 5),
           quote_edge ''at://x'' (ex_post ''at://q'' 0),
           quote_edge ''at://x'' (ex_post ''at://q2'' 0)]"
       and all_posts = ex_thread_dict and all_edges = ex_thread_edges
       and cfg = ex_seed_cfg and ?w0.0 = ex_capped_world
       and thread_dict = ex_thread_dict and thread_edges = ex_thread_edges
       and ?c1.0 = "ex_client_after ex_capped_world 1"
       and ?w1.0 = "ex_capped_world\<lparr>net_calls := 1\<rparr>"
       and final_posts = "[(''at://x'', ex_post ''at://x'' 1),
          (''at://parent'', ex_post ''at://parent'' 0),
          (''at://reply'', ex_post ''at://reply'' 5), (''at://q'', ex_post ''at://q'' 0)]"
       and final_edges = "ex_thread_edges
         @ [quote_edge ''at://x'' (ex_post ''at://reply'' 5),
            quote_edge ''at://x'' (ex_post ''at://q'' 0),
            quote_edge ''at://x'' (ex_post ''at://q2'' 0)]"
       and ?c2.0 = "ex_client_after ex_capped_world 2"
       and ?w2.0 = "ex_capped_world\<lparr>net_calls := 2\<rparr>"]
  from inst ex_capped_fetch_thread below ex_capped_quote_loop
  have posts: "res_posts (fst (seed_mode ex_capped_inputs ex_seed_cfg ex_capped_world))
      = take (nat (in_max_nodes ex_capped_inputs))
          (dict_values [(''at://x'', ex_post ''at://x'' 1),
             (''at://parent'', ex_post ''at://parent'' 0),
             (''at://reply'', ex_post ''at://reply'' 5), (''at://q'', ex_post ''at://q'' 0)])"
    and edges: "res_edges (fst (seed_mode ex_capped_inputs ex_seed_cfg ex_capped_world))
      = deduplicate_edges (ex_thread_edges
         @ [quote_edge ''at://x'' (ex_post ''at://reply'' 5),
            quote_edge ''at://x'' (ex_post ''at://q'' 0),
            quote_edge ''at://x'' (ex_post ''at://q2'' 0)])"
    by blast+
  have "map post_uri (res_posts (fst (seed_mode ex_capped_inputs ex_seed_cfg ex_capped_world)))
       = [''at://x'', ''at://parent'', ''at://reply'', ''at://q'']"
    unfolding posts by (simp add: i(3) dict_values_def post_uri_ex_post)
  moreover have "map edge_key (res_edges (fst (seed_mode ex_capped_inputs ex_seed_cfg ex_capped_world)))
       = [(''at://parent'', ''at://x'', REPLY), (''at://reply'', ''at://x'', REPLY),
          (''at://reply'', ''at://x'', QUOTE), (''at://q'', ''at://x'', QUOTE),
          (''at://q2'', ''at://x'', QUOTE)]"
    unfolding edges
    by (simp add: deduplicate_edges_def ex_thread_edges_def quote_edge_def post_uri_ex_post
          edge_key_def)
  moreover from inst pos
  have "int (length (res_posts (fst (seed_mode ex_capped_inputs ex_seed_cfg ex_capped_world))))
          \<le> in_max_nodes ex_capped_inputs"
    by blast
  then have "int (length (res_posts (fst (seed_mode ex_capped_inputs ex_seed_cfg ex_capped_world)))) \<le> 4"
    by (simp add: i(3))
  ultimately show ?thesis
    using i(1) g ex ex_capped_fetch_thread below ex_capped_quote_loop pos by blast
qed

text \<open>
  Claim C4, as stated: a post URI seen again in seed mode keeps the field values of the
  post seen first. In the run above the reply is seen first in the thread with two likes
  and again among the quotes with five; the result holds it with five.
\<close>

theorem seed_mode_keeps_last_seen_post:
  "map_option (\<lambda>p. like_count (post_metrics p))
     (dict_get (fst (fst (fetch_thread ex_seed_inputs (new_client ex_seed_cfg ex_seed_world)
                            ex_seed_world))) ''at://reply'') = Some 2
   \<and> map (\<lambda>p. (post_uri p, like_count (post_metrics p)))
       (res_posts (fst (seed_mode ex_seed_inputs ex_seed_cfg ex_seed_world)))
     = [(''at://x'', 1), (''at://parent'', 0), (''at://reply'', 5), (''at://q'', 0)]"
proof -
  have below: "\<not> in_max_nodes ex_seed_inputs
                 \<le> int (length [(''at://x'', ex_post ''at://x'' 1),
                                 (''at://parent'', ex_post ''at://parent'' 0),
                                 (''at://reply'', ex_post ''at://reply'' 2)])"
    by (simp add: ex_seed_inputs_def)
  have first: "map_option (\<lambda>p. like_count (post_metrics p))
     (dict_get (fst (fst (fetch_thread ex_seed_inputs (new_client ex_seed_cfg ex_seed_world)
                            ex_seed_world))) ''at://reply'') = Some 2"
    unfolding ex_fetch_thread by (simp add: dict_get_def ex_post_def)
  have last: "map (\<lambda>p. (post_uri p, like_count (post_metrics p)))
       (res_posts (fst (seed_mode ex_seed_inputs ex_seed_cfg ex_seed_world)))
     = [(''at://x'', 1), (''at://parent'', 0), (''at://reply'', 5), (''at://q'', 0)]"
    unfolding seed_mode_posts [OF ex_fetch_thread below] ex_quote_loop
    by (simp add: dict_values_def py_take_def ex_seed_inputs_def ex_post_def)
  from first last show ?thesis by (rule conjI)
qed

text \<open>
  Claim C4, amended: \<open>deduplicate_posts\<close> keeps exactly the first occurrence of every URI,
  in the original order. Seed-mode accumulation assigns every post it meets to the
  accumulator under its URI: the thread traversal the posts of the thread in traversal
  order, every fetched quote page the absorbed prefix of its quote posts; seed mode
  returns the values of that accumulator, cut to \<open>max_nodes\<close>. The accumulator holds one
  entry per URI, in the order in which the URIs were first seen, each with the post
  assigned last under that URI.
\<close>

theorem posts_deduplicated_by_uri:
  "deduplicate_posts ps = first_occurrences post_uri ps
   \<and> (normalize_thread_node fromiso now node posts edges parent_uri max_depth current_depth
         = (r, posts', edges')
       \<longrightarrow> posts' = fold insert_post (thread_posts fromiso now node max_depth current_depth) posts)
   \<and> fst (fst (fetch_thread inputs (new_client cfg w0) w0))
       = fold insert_post (seed_thread_posts inputs cfg w0) []
   \<and> (n < in_max_quote_pages inputs
       \<and> get_quotes c w (in_seed_uri inputs) 50 cursor = (Inr quote_response, c', w')
       \<and> extract_quote_edges (fromisoformat w') (clock w') (resp_posts quote_response)
             (in_seed_uri inputs) = (quote_posts, quote_edges)
       \<longrightarrow> (\<exists>k\<le>length quote_posts.
             (k < length quote_posts \<longrightarrow>
                in_max_nodes inputs
                  \<le> int (length (fold insert_post (take k quote_posts) all_posts)))
             \<and> quote_loop inputs cursor n all_posts all_edges c w
                 = (if \<not> truthy (resp_cursor quote_response) \<or> get_remaining_budget c' < 10
                       \<or> in_max_nodes inputs
                           \<le> int (length (fold insert_post (take k quote_posts) all_posts))
                    then ((fold insert_post (take k quote_posts) all_posts,
                           all_edges @ quote_edges), c', w')
                    else quote_loop inputs (resp_cursor quote_response) (n + 1)
                           (fold insert_post (take k quote_posts) all_posts)
                           (all_edges @ quote_edges) c' w')))
   \<and> (fetch_thread inputs (new_client cfg w0) w0 = ((thread_dict, thread_edges), c1, w1)
       \<and> quote_loop inputs None 0 thread_dict thread_edges c1 w1
           = ((final_posts, final_edges), c2, w2)
       \<longrightarrow> res_posts (fst (seed_mode inputs cfg w0))
             = py_take (in_max_nodes inputs)
                 (dict_values (if in_max_nodes inputs \<le> int (length thread_dict)
                               then thread_dict else final_posts)))
   \<and> (\<exists>inserted. res_posts (fst (seed_mode inputs cfg w0))
         = py_take (in_max_nodes inputs)
             (dict_values (fold insert_post (seed_thread_posts inputs cfg w0 @ inserted) [])))
   \<and> map fst (fold insert_post seen []) = first_occurrences id (map post_uri seen)
   \<and> (\<forall>u. dict_get (fold insert_post seen []) u = find (\<lambda>p. post_uri p = u) (rev seen))"
proof (intro conjI impI allI)
  show "deduplicate_posts ps = first_occurrences post_uri ps"
    by (rule dedup_posts_first)
next
  assume "normalize_thread_node fromiso now node posts edges parent_uri max_depth current_depth
         = (r, posts', edges')"
  with normalize_thread_posts(1) [of fromiso now node posts edges parent_uri max_depth
      current_depth r posts' edges']
  show "posts' = fold insert_post (thread_posts fromiso now node max_depth current_depth) posts"
    by simp
next
  show "fst (fst (fetch_thread inputs (new_client cfg w0) w0))
       = fold insert_post (seed_thread_posts inputs cfg w0) []"
    by (rule fetch_thread_posts)
next
  assume page: "n < in_max_quote_pages inputs
       \<and> get_quotes c w (in_seed_uri inputs) 50 cursor = (Inr quote_response, c', w')
       \<and> extract_quote_edges (fromisoformat w') (clock w') (resp_posts quote_response)
             (in_seed_uri inputs) = (quote_posts, quote_edges)"
  then have more: "n < in_max_quote_pages inputs"
    and g: "get_quotes c w (in_seed_uri inputs) 50 cursor = (Inr quote_response, c', w')"
    and ex: "extract_quote_edges (fromisoformat w') (clock w') (resp_posts quote_response)
           (in_seed_uri inputs) = (quote_posts, quote_edges)"
    by simp_all
  let ?A = "insert_quote_posts quote_posts all_posts (in_max_nodes inputs)"
  from insert_quote_posts_prefix [of quote_posts all_posts "in_max_nodes inputs"]
  obtain k where k: "k \<le> length quote_posts"
    "?A = fold insert_post (take k quote_posts) all_posts"
    "k < length quote_posts \<longrightarrow> in_max_nodes inputs \<le> int (length ?A)"
    by blast
  note step = quote_loop_page [OF more g ex, of all_posts all_edges, unfolded k(2)]
  from k(1) k(3) [unfolded k(2)] step
  show "\<exists>k\<le>length quote_posts.
             (k < length quote_posts \<longrightarrow>
                in_max_nodes inputs
                  \<le> int (length (fold insert_post (take k quote_posts) all_posts)))
             \<and> quote_loop inputs cursor n all_posts all_edges c w
                 = (if \<not> truthy (resp_cursor quote_response) \<or> get_remaining_budget c' < 10
                       \<or> in_max_nodes inputs
                           \<le> int (length (fold insert_post (take k quote_posts) all_posts))
                    then ((fold insert_post (take k quote_posts) all_posts,
                           all_edges @ quote_edges), c', w')
                    else quote_loop inputs (resp_cursor quote_response) (n + 1)
                           (fold insert_post (take k quote_posts) all_posts)
                           (all_edges @ quote_edges) c' w')"
    by blast
next
  assume run: "fetch_thread inputs (new_client cfg w0) w0 = ((thread_dict, thread_edges), c1, w1)
       \<and> quote_loop inputs None 0 thread_dict thread_edges c1 w1
           = ((final_posts, final_edges), c2, w2)"
  show "res_posts (fst (seed_mode inputs cfg w0))
             = py_take (in_max_nodes inputs)
                 (dict_values (if in_max_nodes inputs \<le> int (length thread_dict)
                               then thread_dict else final_posts))"
  proof (cases "in_max_nodes inputs \<le> int (length thread_dict)")
    case True
    with run seed_mode_at_thread_cap [of inputs cfg w0 thread_dict thread_edges c1 w1]
    show ?thesis by simp
  next
    case False
    with run seed_mode_after_quotes [of inputs cfg w0 thread_dict thread_edges c1 w1
        final_posts final_edges c2 w2]
    show ?thesis by simp
  qed
next
  show "\<exists>inserted. res_posts (fst (seed_mode inputs cfg w0))
         = py_take (in_max_nodes inputs)
             (dict_values (fold insert_post (seed_thread_posts inputs cfg w0 @ inserted) []))"
    by (rule seed_mode_posts_inserted)
next
  show "map fst (fold insert_post seen []) = first_occurrences id (map post_uri seen)"
    using fold_insert_post_keys [of "[]" seen] by simp
next
  fix u
  show "dict_get (fold insert_post seen []) u = find (\<lambda>p. post_uri p = u) (rev seen)"
    by (rule fold_insert_post_last)
qed

theorem posts_deduplicated_by_uri_witness:
  "deduplicate_posts [ex_post ''at://a'' 1, ex_post ''at://b'' 0, ex_post ''at://a'' 2]
     = [ex_post ''at://a'' 1, ex_post ''at://b'' 0]
   \<and> normalize_thread_node ex_fromiso 7 ex_thread [] [] None 3 0
       = (Some ''at://x'', ex_thread_dict, ex_thread_edges)
   \<and> ex_thread_dict = fold insert_post (thread_posts ex_fromiso 7 ex_thread 3 0) []
   \<and> 0 < in_max_quote_pages ex_capped_inputs
   \<and> get_quotes (ex_client_after ex_capped_world 1) (ex_capped_world\<lparr>net_calls := 1\<rparr>)
         (in_seed_uri ex_capped_inputs) 50 None
       = (Inr ex_quote_page_more, ex_client_after ex_capped_world 2,
          ex_capped_world\<lparr>net_calls := 2\<rparr>)
   \<and> extract_quote_edges (fromisoformat (ex_capped_world\<lparr>net_calls := 2\<rparr>))
         (clock (ex_capped_world\<lparr>net_calls := 2\<rparr>)) (resp_posts ex_quote_page_more)
         (in_seed_uri ex_capped_inputs)
       = ([ex_post ''at://reply'' 5, ex_post ''at://q'' 0, ex_post ''at://q2'' 0],
          [quote_edge ''at://x'' (ex_post ''at://reply'' 5),
           quote_edge ''at://x'' (ex_post ''at://q'' 0),
           quote_edge ''at://x'' (ex_post ''at://q2'' 0)])
   \<and> fetch_thread ex_capped_inputs (new_client ex_seed_cfg ex_capped_world) ex_capped_world
       = ((ex_thread_dict, ex_thread_edges), ex_client_after ex_capped_world 1,
          ex_capped_world\<lparr>net_calls := 1\<rparr>)
   \<and> quote_loop ex_capped_inputs None 0 ex_thread_dict ex_thread_edges
         (ex_client_after ex_capped_world 1) (ex_capped_world\<lparr>net_calls := 1\<rparr>)
       = (([(''at://x'', ex_post ''at://x'' 1), (''at://parent'', ex_post ''at://parent'' 0),
            (''at://reply'', ex_post ''at://reply'' 5), (''at://q'', ex_post ''at://q'' 0)],
           ex_thread_edges
           @ [quote_edge ''at://x'' (ex_post ''at://reply'' 5),
              quote_edge ''at://x'' (ex_post ''at://q'' 0),
              quote_edge ''at://x'' (ex_post ''at://q2'' 0)]),
          ex_client_after ex_capped_world 2, ex_capped_world\<lparr>net_calls := 2\<rparr>)
   \<and> map (\<lambda>p. (post_uri p, like_count (post_metrics p)))
        (res_posts (fst (seed_mode ex_capped_inputs ex_seed_cfg ex_capped_world)))
       = [(''at://x'', 1), (''at://parent'', 0), (''at://reply'', 5), (''at://q'', 0)]"
proof -
  have i: "0 < in_max_quote_pages ex_capped_inputs" "in_seed_uri ex_capped_inputs = ''at://x''"
    "in_max_nodes ex_capped_inputs = 4"
    by (simp_all add: ex_capped_inputs_def)
  have w: "fromisoformat (ex_capped_world\<lparr>net_calls := 2\<rparr>) = ex_fromiso"
    "clock (ex_capped_world\<lparr>net_calls := 2\<rparr>) = 7"
    by (simp_all add: ex_capped_world_def)
  note g = ex_capped_get_quotes [folded i(2)]
  have ex: "extract_quote_edges (fromisoformat (ex_capped_world\<lparr>net_calls := 2\<rparr>))
         (clock (ex_capped_world\<lparr>net_calls := 2\<rparr>)) (resp_posts ex_quote_page_more)
         (in_seed_uri ex_capped_inputs)
       = ([ex_post ''at://reply'' 5, ex_post ''at://q'' 0, ex_post ''at://q2'' 0],
          [quote_edge ''at://x'' (ex_post ''at://reply'' 5),
           quote_edge ''at://x'' (ex_post ''at://q'' 0),
           quote_edge ''at://x'' (ex_post ''at://q2'' 0)])"
    by (simp add: i(2) w ex_capped_extract)
  note inst = posts_deduplicated_by_uri
    [where ps = "[ex_post ''at://a'' 1, ex_post ''at://b'' 0, ex_post ''at://a'' 2]"
       and fromiso = ex_fromiso and now = 7 and node = ex_thread and posts = "[]"
       and edges = "[]" and parent_uri = None and max_depth = 3 and current_depth = 0
       and r = "Some ''at://x''" and posts' = ex_thread_dict and edges' = ex_thread_edges
       and inputs = ex_capped_inputs and n = 0 and cursor = None
       and c = "ex_client_after ex_capped_world 1" and w = "ex_capped_world\<lparr>net_calls := 1\<rparr>"
       and quote_response = ex_quote_page_more
       and c' = "ex_client_after ex_capped_world 2" and w' = "ex_capped_world\<lparr>net_calls := 2\<rparr>"
       and quote_posts = "[ex_post ''at://reply'' 5, ex_post ''at://q'' 0, ex_post ''at://q2'' 0]"
       and quote_edges = "[quote_edge ''at://x'' (ex_post ''at://reply'' 5),
           quote_edge ''at://x'' (ex_post ''at://q'' 0),
           quote_edge ''at://x'' (ex_post ''at://q2'' 0)]"
       and all_posts = ex_thread_dict and all_edges = ex_thread_edges
       and cfg = ex_seed_cfg and ?w0.0 = ex_capped_world
       and thread_dict = ex_thread_dict and thread_edges = ex_thread_edges
       and ?c1.0 = "ex_client_after ex_capped_world 1"
       and ?w1.0 = "ex_capped_world\<lparr>net_calls := 1\<rparr>"
       and final_posts = "[(''at://x'', ex_post ''at://x'' 1),
          (''at://parent'', ex_post ''at://parent'' 0),
          (''at://reply'', ex_post ''at://reply'' 5), (''at://q'', ex_post ''at://q'' 0)]"
       and final_edges = "ex_thread_edges
         @ [quote_edge ''at://x'' (ex_post ''at://reply'' 5),
            quote_edge ''at://x'' (ex_post ''at://q'' 0),
            quote_edge ''at://x'' (ex_post ''at://q2'' 0)]"
       and ?c2.0 = "ex_client_after ex_capped_world 2"
       and ?w2.0 = "ex_capped_world\<lparr>net_calls := 2\<rparr>"]
  have dd: "deduplicate_posts [ex_post ''at://a'' 1, ex_post ''at://b'' 0, ex_post ''at://a'' 2]
     = [ex_post ''at://a'' 1, ex_post ''at://b'' 0]"
    by (simp add: deduplicate_posts_def post_uri_ex_post)
  from inst ex_normalize_thread
  have td: "ex_thread_dict = fold insert_post (thread_posts ex_fromiso 7 ex_thread 3 0) []"
    by blast
  from inst ex_capped_fetch_thread ex_capped_quote_loop
  have posts: "res_posts (fst (seed_mode ex_capped_inputs ex_seed_cfg ex_capped_world))
      = py_take (in_max_nodes ex_capped_inputs)
          (dict_values (if in_max_nodes ex_capped_inputs \<le> int (length ex_thread_dict)
             then ex_thread_dict
             else [(''at://x'', ex_post ''at://x'' 1),
               (''at://parent'', ex_post ''at://parent'' 0),
               (''at://reply'', ex_post ''at://reply'' 5), (''at://q'', ex_post ''at://q'' 0)]))"
    by blast
  have final: "map (\<lambda>p. (post_uri p, like_count (post_metrics p)))
        (res_posts (fst (seed_mode ex_capped_inputs ex_seed_cfg ex_capped_world)))
       = [(''at://x'', 1), (''at://parent'', 0), (''at://reply'', 5), (''at://q'', 0)]"
    unfolding posts
    by (simp add: i(3) ex_thread_dict_def dict_values_def py_take_def ex_post_def)
  from dd ex_normalize_thread td i(1) g ex ex_capped_fetch_thread ex_capped_quote_loop final
  show ?thesis by blast
qed

end
